theory Spec2Isabelle
  imports Main "HOL-Library.Word"
begin

unbundle bit_operations_syntax

section \<open>Data model\<close>

text \<open>
  A Node \<open>Buffer\<close> is a list of bytes. A JavaScript string is a sequence of UTF-16 code
  units. Offsets and lengths are JavaScript numbers holding non-negative integers far below
  \<open>2 ^ 53\<close> (a table offset is a u32, a string offset a sum of u16 values), so they are
  natural numbers here and no addition wraps.
\<close>

type_synonym byte = "8 word"
type_synonym buffer = "byte list"
type_synonym code_unit = "16 word"
type_synonym jsstring = "code_unit list"

text \<open>A string literal of the source, as its code units.\<close>

definition js :: "string \<Rightarrow> jsstring" where
  "js s = map (\<lambda>c. of_nat (of_char c)) s"

datatype font_style = Normal | Italic | Oblique

text \<open>
  \<open>Partial<FontEntry>\<close>: every property may be absent (\<open>None\<close>). \<open>FontEntry\<close> is the
  same object after the cast \<open>metadata as FontEntry\<close>.
\<close>

record font_entry =
  name :: "jsstring option"
  path :: "jsstring option"
  format :: "jsstring option"
  family :: "jsstring option"
  weight :: "nat option"
  style :: "font_style option"
  version :: "jsstring option"
  copyright :: "jsstring option"
  isMonospace :: "bool option"
  fileSize :: "nat option"
  lastModified :: "int option"

text \<open>The object literal \<open>{}\<close>.\<close>

definition empty_entry :: font_entry where
  "empty_entry = \<lparr> name = None, path = None, format = None, family = None, weight = None,
     style = None, version = None, copyright = None, isMonospace = None, fileSize = None,
     lastModified = None \<rparr>"

text \<open>
  \<open>Object.assign(target, source)\<close> and the spread \<open>{...target, ...source}\<close>: every property
  present in the source replaces the target's; the others stay.
\<close>

definition ovr :: "'a option \<Rightarrow> 'a option \<Rightarrow> 'a option" where
  "ovr old new = (case new of None \<Rightarrow> old | Some v \<Rightarrow> Some v)"

definition assign :: "font_entry \<Rightarrow> font_entry \<Rightarrow> font_entry" where
  "assign t s = \<lparr> name = ovr (name t) (name s), path = ovr (path t) (path s),
     format = ovr (format t) (format s), family = ovr (family t) (family s),
     weight = ovr (weight t) (weight s), style = ovr (style t) (style s),
     version = ovr (version t) (version s), copyright = ovr (copyright t) (copyright s),
     isMonospace = ovr (isMonospace t) (isMonospace s), fileSize = ovr (fileSize t) (fileSize s),
     lastModified = ovr (lastModified t) (lastModified s) \<rparr>"

section \<open>Buffer primitives of Node\<close>

text \<open>A thrown exception is the left summand of a result.\<close>

datatype exn = RangeError | TypeError

text \<open>
  \<open>buf.readUInt16BE(offset)\<close> and \<open>buf.readUInt32BE(offset)\<close> throw a RangeError when the
  bytes are not all inside the buffer; otherwise they combine the bytes, most significant
  first.
\<close>

definition u16be :: "buffer \<Rightarrow> nat \<Rightarrow> nat" where
  "u16be buf off = unat (buf ! off) * 2 ^ 8 + unat (buf ! (off + 1))"

definition u32be :: "buffer \<Rightarrow> nat \<Rightarrow> nat" where
  "u32be buf off = unat (buf ! off) * 2 ^ 24 + unat (buf ! (off + 1)) * 2 ^ 16
     + unat (buf ! (off + 2)) * 2 ^ 8 + unat (buf ! (off + 3))"

definition readUInt16BE :: "buffer \<Rightarrow> nat \<Rightarrow> exn + nat" where
  "readUInt16BE buf off = (if off + 2 \<le> length buf then Inr (u16be buf off) else Inl RangeError)"

definition readUInt32BE :: "buffer \<Rightarrow> nat \<Rightarrow> exn + nat" where
  "readUInt32BE buf off = (if off + 4 \<le> length buf then Inr (u32be buf off) else Inl RangeError)"

text \<open>\<open>buf.slice(start, end)\<close> clamps both ends to the buffer and never throws.\<close>

definition slice :: "buffer \<Rightarrow> nat \<Rightarrow> nat \<Rightarrow> buffer" where
  "slice buf start end = take (end - start) (drop start buf)"

text \<open>\<open>buf[i]\<close> is \<open>undefined\<close> out of range.\<close>

definition at :: "buffer \<Rightarrow> nat \<Rightarrow> byte option" where
  "at buf i = (if i < length buf then Some (buf ! i) else None)"

text \<open>
  \<open>buf.toString('ascii', start, end)\<close>: decoding as \<open>'ascii'\<close> clears the highest bit of
  every byte.
\<close>

definition toString_ascii :: "buffer \<Rightarrow> nat \<Rightarrow> nat \<Rightarrow> jsstring" where
  "toString_ascii buf start end = map (\<lambda>b. ucast (b AND 0x7F)) (slice buf start end)"

section \<open>decodeUtf16BE\<close>

text \<open>
  The loop \<open>for (i = 0; i < buffer.length - 1; i += 2)\<close> takes the bytes two at a time and
  ignores an odd last byte; the recursion consumes the same pairs in the same order. Both
  bytes of a pair are inside the buffer, so neither is \<open>undefined\<close>. \<open>String.fromCharCode\<close>
  appends the 16-bit value as one code unit.
\<close>

fun decodeUtf16BE :: "buffer \<Rightarrow> jsstring" where
  "decodeUtf16BE (byte1 # byte2 # rest) =
     (let charCode = push_bit 8 (ucast byte1) OR ucast byte2
      in if charCode \<noteq> 0 then charCode # decodeUtf16BE rest else decodeUtf16BE rest)"
| "decodeUtf16BE _ = []"

text \<open>\<open>.replace(/\0/g, '')\<close>\<close>

definition replace_nul :: "jsstring \<Rightarrow> jsstring" where
  "replace_nul s = filter (\<lambda>c. c \<noteq> 0) s"

text \<open>\<open>.trim()\<close> removes ECMAScript white space and line terminators at both ends.\<close>

definition is_white :: "code_unit \<Rightarrow> bool" where
  "is_white c \<longleftrightarrow> c \<in> set [0x09, 0x0A, 0x0B, 0x0C, 0x0D, 0x20, 0xA0, 0x1680, 0x2000, 0x2001,
     0x2002, 0x2003, 0x2004, 0x2005, 0x2006, 0x2007, 0x2008, 0x2009, 0x200A, 0x2028, 0x2029,
     0x202F, 0x205F, 0x3000, 0xFEFF]"

definition trim :: "jsstring \<Rightarrow> jsstring" where
  "trim s = rev (dropWhile is_white (rev (dropWhile is_white s)))"

section \<open>parseNameTable\<close>

text \<open>The \<open>switch (nameID)\<close> of the loop body.\<close>

definition set_name_field :: "nat \<Rightarrow> jsstring \<Rightarrow> font_entry \<Rightarrow> font_entry" where
  "set_name_field nameID nameStr result =
     (if nameID = 1 then result\<lparr>family := Some nameStr\<rparr>
      else if nameID = 4 then result\<lparr>name := Some nameStr\<rparr>
      else if nameID = 5 then result\<lparr>version := Some nameStr\<rparr>
      else if nameID = 0 then result\<lparr>copyright := Some nameStr\<rparr>
      else result)"

text \<open>
  One pass of a loop body either leaves the loop (\<open>break\<close>, or a throw caught outside the
  loop) or goes on with the next index.
\<close>

datatype 'a loop = Break 'a | Continue 'a

definition name_body :: "buffer \<Rightarrow> nat \<Rightarrow> nat \<Rightarrow> nat \<Rightarrow> font_entry \<Rightarrow> font_entry loop" where
  "name_body buf offset stringOffset j result =
     (let recordOffset = offset + 6 + j * 12 in
      if recordOffset + 12 > length buf then Break result
      else
        (case readUInt16BE buf (recordOffset + 6) of Inl e \<Rightarrow> Break result | Inr nameID \<Rightarrow>
        (case readUInt16BE buf (recordOffset + 8) of Inl e \<Rightarrow> Break result | Inr stringLength \<Rightarrow>
        (case readUInt16BE buf (recordOffset + 10) of Inl e \<Rightarrow> Break result
         | Inr stringOffsetInTable \<Rightarrow>
          let start = stringOffset + stringOffsetInTable in
          if start + stringLength \<le> length buf then
            let nameBuf = slice buf start (start + stringLength);
                nameStr = trim (replace_nul (decodeUtf16BE nameBuf))
            in if nameStr \<noteq> [] then Continue (set_name_field nameID nameStr result)
               else Continue result
          else Continue result))))"

function name_loop :: "buffer \<Rightarrow> nat \<Rightarrow> nat \<Rightarrow> nat \<Rightarrow> nat \<Rightarrow> font_entry \<Rightarrow> font_entry" where
  "name_loop buf offset stringOffset count j result =
     (if j < count then
        (case name_body buf offset stringOffset j result of
           Break r \<Rightarrow> r
         | Continue r \<Rightarrow> name_loop buf offset stringOffset count (j + 1) r)
      else result)"
  by pat_completeness auto
termination
  by (relation "measure (\<lambda>(buf, offset, stringOffset, count, j, result). count - j)") auto

declare name_loop.simps [simp del]

text \<open>
  The parameter \<open>_length\<close> of the source is unused. The \<open>try\<close> block returns
  \<open>result\<close> as it stands when a read throws: the two header reads
  come before any assignment, so the result is still empty there.
\<close>

definition parseNameTable :: "buffer \<Rightarrow> nat \<Rightarrow> nat \<Rightarrow> font_entry" where
  "parseNameTable buf offset len =
     (if offset + 6 > length buf then empty_entry
      else
        (case readUInt16BE buf (offset + 2) of Inl e \<Rightarrow> empty_entry | Inr count \<Rightarrow>
        (case readUInt16BE buf (offset + 4) of Inl e \<Rightarrow> empty_entry | Inr so \<Rightarrow>
          name_loop buf offset (offset + so) count 0 empty_entry)))"

section \<open>parseOS2Table and parsePostTable\<close>

text \<open>
  The last block of \<open>parseOS2Table\<close>: the PANOSE bytes are the slice from \<open>offset + 32\<close> to
  \<open>offset + 42\<close>, and byte 3 of the slice is compared with 9.
\<close>

definition os2_panose :: "buffer \<Rightarrow> nat \<Rightarrow> font_entry \<Rightarrow> font_entry" where
  "os2_panose buf offset result =
     (if offset + 42 \<le> length buf then
        let panoseData = slice buf (offset + 32) (offset + 42)
        in if at panoseData 3 = Some 9 then result\<lparr>isMonospace := Some True\<rparr> else result
      else result)"

text \<open>
  A throw inside the \<open>try\<close> block is caught and \<open>result\<close> is returned as assigned so far.
\<close>

definition parseOS2Table :: "buffer \<Rightarrow> nat \<Rightarrow> nat \<Rightarrow> font_entry" where
  "parseOS2Table buf offset len =
     (if offset + 8 > length buf then empty_entry
      else
        (case readUInt16BE buf (offset + 4) of Inl e \<Rightarrow> empty_entry | Inr w \<Rightarrow>
          let result = empty_entry\<lparr>weight := Some w\<rparr> in
          if offset + 64 \<le> length buf then
            (case readUInt16BE buf (offset + 62) of Inl e \<Rightarrow> result
             | Inr fsSelection \<Rightarrow>
                 if fsSelection AND 1 \<noteq> 0
                 then os2_panose buf offset (result\<lparr>style := Some Italic\<rparr>)
                 else os2_panose buf offset (result\<lparr>style := Some Normal\<rparr>))
          else os2_panose buf offset result))"

definition parsePostTable :: "buffer \<Rightarrow> nat \<Rightarrow> nat \<Rightarrow> font_entry" where
  "parsePostTable buf offset len =
     (if offset + 32 > length buf then empty_entry
      else
        (case readUInt32BE buf (offset + 12) of Inl e \<Rightarrow> empty_entry
         | Inr isFixedPitch \<Rightarrow>
             if isFixedPitch \<noteq> 0 then empty_entry\<lparr>isMonospace := Some True\<rparr>
             else empty_entry))"

section \<open>parseTTFOTFFont\<close>

text \<open>
  The body of the table loop. A throw (\<open>Inl\<close>) leaves the whole \<open>try\<close> block of
  \<open>parseTTFOTFFont\<close>; \<open>Break\<close> is the \<open>break\<close> on a directory entry that does not fit.
\<close>

definition table_body :: "buffer \<Rightarrow> nat \<Rightarrow> font_entry \<Rightarrow> exn + font_entry loop" where
  "table_body buf i metadata =
     (let tableOffset = 12 + i * 16 in
      if tableOffset + 16 > length buf then Inr (Break metadata)
      else
        let tag = toString_ascii buf tableOffset (tableOffset + 4) in
        (case readUInt32BE buf (tableOffset + 8) of Inl e \<Rightarrow> Inl e | Inr tableDataOffset \<Rightarrow>
        (case readUInt32BE buf (tableOffset + 12) of Inl e \<Rightarrow> Inl e | Inr tableLength \<Rightarrow>
          if tag = js ''name'' then
            Inr (Continue (assign metadata (parseNameTable buf tableDataOffset tableLength)))
          else if tag = js ''OS/2'' then
            Inr (Continue (assign metadata (parseOS2Table buf tableDataOffset tableLength)))
          else if tag = js ''post'' then
            Inr (Continue (assign metadata (parsePostTable buf tableDataOffset tableLength)))
          else Inr (Continue metadata))))"

function table_loop :: "buffer \<Rightarrow> nat \<Rightarrow> nat \<Rightarrow> font_entry \<Rightarrow> exn + font_entry" where
  "table_loop buf numTables i metadata =
     (if i < numTables then
        (case table_body buf i metadata of
           Inl e \<Rightarrow> Inl e
         | Inr (Break m) \<Rightarrow> Inr m
         | Inr (Continue m) \<Rightarrow> table_loop buf numTables (i + 1) m)
      else Inr metadata)"
  by pat_completeness auto
termination
  by (relation "measure (\<lambda>(buf, numTables, i, metadata). numTables - i)") auto

declare table_loop.simps [simp del]

text \<open>
  The \<open>try\<close> block of \<open>parseTTFOTFFont\<close>: \<open>Inr None\<close> is \<open>return null\<close>, \<open>Inl\<close> a throw.
\<close>

definition parseTTFOTFFont_try :: "buffer \<Rightarrow> exn + font_entry option" where
  "parseTTFOTFFont_try buf =
     (if length buf < 12 then Inr None
      else
        (case readUInt16BE buf 4 of Inl e \<Rightarrow> Inl e | Inr numTables \<Rightarrow>
        (case table_loop buf numTables 0 empty_entry of
           Inl e \<Rightarrow> Inl e
         | Inr metadata \<Rightarrow> Inr (Some metadata))))"

text \<open>\<open>catch { return null; }\<close>\<close>

definition parseTTFOTFFont :: "buffer \<Rightarrow> font_entry option" where
  "parseTTFOTFFont buf = (case parseTTFOTFFont_try buf of Inl e \<Rightarrow> None | Inr r \<Rightarrow> r)"

section \<open>Strings and paths of the host\<close>

text \<open>
  \<open>String.prototype.toLowerCase\<close>, on the letters A to Z; other code units are left as they
  are. This is the function of the code on every string of ASCII code units; on other strings
  the code lower-cases the cased characters beyond ASCII as well. An extension that
  lower-cases to one of the font extensions is made of ASCII letters, digits and the dot, so
  the choice between decoding and fallback is the code's for every path; the format and name
  filters are the code's on ASCII formats, names and queries.
\<close>

definition lower_unit :: "code_unit \<Rightarrow> code_unit" where
  "lower_unit c = (if 0x41 \<le> c \<and> c \<le> 0x5A then c + 0x20 else c)"

definition toLowerCase :: "jsstring \<Rightarrow> jsstring" where
  "toLowerCase s = map lower_unit s"

text \<open>\<open>s.substring(n)\<close> and \<open>s.includes(q)\<close>.\<close>

definition substring :: "jsstring \<Rightarrow> nat \<Rightarrow> jsstring" where
  "substring s n = drop n s"

fun includes_str :: "jsstring \<Rightarrow> jsstring \<Rightarrow> bool" where
  "includes_str [] q = (q = [])"
| "includes_str (c # s) q = (take (length q) (c # s) = q \<or> includes_str s q)"

text \<open>A string is truthy when it is present and not empty.\<close>

definition truthy :: "jsstring option \<Rightarrow> bool" where
  "truthy s = (case s of None \<Rightarrow> False | Some v \<Rightarrow> v \<noteq> [])"

text \<open>
  Node's \<open>path.extname\<close> and \<open>path.basename\<close> in the POSIX flavour (separator \<open>/\<close>), the
  one the code runs with on Linux and macOS; on Windows the functions split at backslashes
  and drive letters too, and compare the suffix of \<open>basename\<close> in the same way. The last
  component of a path is what follows its last separator, trailing separators dropped. The
  extension starts at the last dot of that component, and is empty when there is no dot, when
  the dot is the component's first character, or when the component is \<open>..\<close>.
  \<open>basename(p, suffix)\<close> removes the suffix from the last component when the component ends
  with it and is longer than it; the comparison is by code unit, hence case-sensitive.
\<close>

definition last_component :: "jsstring \<Rightarrow> jsstring" where
  "last_component p =
     rev (takeWhile (\<lambda>c. c \<noteq> 0x2F) (dropWhile (\<lambda>c. c = 0x2F) (rev p)))"

definition extname :: "jsstring \<Rightarrow> jsstring" where
  "extname p =
     (let comp = last_component p;
          tail = rev (takeWhile (\<lambda>c. c \<noteq> 0x2E) (rev comp))
      in if 0x2E \<notin> set comp \<or> length tail + 1 = length comp \<or> comp = js ''..'' then []
         else drop (length comp - (length tail + 1)) comp)"

definition basename :: "jsstring \<Rightarrow> jsstring \<Rightarrow> jsstring" where
  "basename p suffix =
     (let comp = last_component p in
      if suffix \<noteq> [] \<and> length suffix \<le> length p then
        if suffix = p then []
        else if length suffix < length comp
                \<and> drop (length comp - length suffix) comp = suffix
        then take (length comp - length suffix) comp
        else comp
      else comp)"

section \<open>The file system\<close>

text \<open>
  \<open>fs.statSync\<close> and \<open>fs.readFileSync\<close> (and their promise forms) either return or throw a
  system error. The file system does not change during a scan.
\<close>

datatype fs_error = ENOENT | EACCES | EIO

text \<open>The properties \<open>size\<close> and \<open>mtime\<close> of \<open>fs.Stats\<close>.\<close>

record fs_stats =
  st_size :: nat
  st_mtime :: int

record filesystem =
  statSync :: "jsstring \<Rightarrow> fs_error + fs_stats"
  readFileSync :: "jsstring \<Rightarrow> fs_error + buffer"

section \<open>readFontMetadataSync and readFontMetadataAsync\<close>

text \<open>The statements after the two reads, shared word for word by both functions.\<close>

definition synthesize :: "jsstring \<Rightarrow> fs_stats \<Rightarrow> buffer \<Rightarrow> font_entry" where
  "synthesize fontPath stats buf =
     (let ext = toLowerCase (extname fontPath);
          baseMetadata = empty_entry\<lparr>path := Some fontPath, format := Some (substring ext 1),
            fileSize := Some (st_size stats), lastModified := Some (st_mtime stats)\<rparr>;
          nm = basename fontPath ext;
          fallback = baseMetadata\<lparr>name := Some nm, family := Some nm\<rparr>
      in if ext \<in> set [js ''.ttf'', js ''.otf'', js ''.ttc''] then
           (case parseTTFOTFFont buf of
              None \<Rightarrow> fallback
            | Some ttfMetadata \<Rightarrow>
                if truthy (name ttfMetadata) then assign baseMetadata ttfMetadata
                else fallback)
         else fallback)"

text \<open>\<open>None\<close> is \<open>return null\<close> from the \<open>catch\<close>.\<close>

definition readFontMetadataSync :: "filesystem \<Rightarrow> jsstring \<Rightarrow> font_entry option" where
  "readFontMetadataSync fs fontPath =
     (case statSync fs fontPath of Inl e \<Rightarrow> None | Inr stats \<Rightarrow>
     (case readFileSync fs fontPath of Inl e \<Rightarrow> None | Inr buf \<Rightarrow>
        Some (synthesize fontPath stats buf)))"

definition readFontMetadataAsync :: "filesystem \<Rightarrow> jsstring \<Rightarrow> font_entry option" where
  "readFontMetadataAsync fs fontPath =
     (case statSync fs fontPath of Inl e \<Rightarrow> None | Inr stats \<Rightarrow>
     (case readFileSync fs fontPath of Inl e \<Rightarrow> None | Inr buf \<Rightarrow>
        Some (synthesize fontPath stats buf)))"

section \<open>Scanning\<close>

datatype error_code = FILE_NOT_FOUND | PERMISSION_DENIED | INVALID_FONT | PARSE_ERROR | UNKNOWN

text \<open>
  \<open>FontError\<close>, \<open>FontScanResult\<close> with its \<open>stats\<close>, and \<open>FontScanOptions\<close>. The
  property \<open>path\<close> of a \<open>FontError\<close> is \<open>error_path\<close> here, apart from the \<open>path\<close> of
  a font entry.
\<close>

record font_error =
  error_path :: jsstring
  message :: jsstring
  code :: error_code

record scan_stats =
  directoriesScanned :: nat
  filesProcessed :: nat
  fontsFound :: nat
  filesFailed :: nat
  scanTimeMs :: int

record font_scan_result =
  fonts :: "font_entry list"
  errors :: "font_error list"
  stats :: scan_stats

record font_scan_options =
  useCache :: "bool option"
  includeSystemFonts :: "bool option"
  includeUserFonts :: "bool option"
  customDirs :: "jsstring list option"

text \<open>The module variables \<open>fontCache\<close> and \<open>cacheTimestamp\<close>, and the constant.\<close>

record cache =
  fontCache :: "font_entry list option"
  cacheTimestamp :: int

definition CACHE_DURATION :: int where
  "CACHE_DURATION = 300000"

text \<open>
  What the scan takes from its surroundings: the file system, the outcome of the directory walk
  for the options (the font files found, in order, and the number of directories that exist),
  and the three readings of \<open>Date.now()\<close> in the order the function makes them. The walk
  stands for \<open>getPlatformFontDirs\<close> followed by \<open>walkDir\<close> on every directory that
  exists; \<open>walkDirAsync\<close> visits the same directories by the same rules, so the
  asynchronous scan takes the same outcome.
\<close>

record host =
  files :: filesystem
  walk :: "font_scan_options \<Rightarrow> jsstring list \<times> nat"
  startTime :: int
  now :: int
  endTime :: int

text \<open>
  The running variables \<open>fonts\<close>, \<open>errors\<close>, \<open>filesProcessed\<close> and \<open>filesFailed\<close> of
  the file loop.
\<close>

record tally =
  t_fonts :: "font_entry list"
  t_errors :: "font_error list"
  t_filesProcessed :: nat
  t_filesFailed :: nat

definition parse_failure :: "jsstring \<Rightarrow> font_error" where
  "parse_failure file = \<lparr> error_path = file,
     message = js ''Failed to extract font metadata'', code = PARSE_ERROR \<rparr>"

text \<open>
  The loop \<open>for (const file of fontFiles)\<close> of the synchronous scan. \<open>readFontMetadataSync\<close>
  catches whatever is thrown inside it, so the \<open>catch\<close> of the loop body has nothing to catch.
\<close>

fun scan_files :: "filesystem \<Rightarrow> jsstring list \<Rightarrow> tally \<Rightarrow> tally" where
  "scan_files fs [] t = t"
| "scan_files fs (file # rest) t =
     (let t = t\<lparr>t_filesProcessed := t_filesProcessed t + 1\<rparr> in
      case readFontMetadataSync fs file of
        None \<Rightarrow>
          scan_files fs rest (t\<lparr>t_filesFailed := t_filesFailed t + 1,
            t_errors := t_errors t @ [parse_failure file]\<rparr>)
      | Some metadata \<Rightarrow>
          if truthy (name metadata)
          then scan_files fs rest (t\<lparr>t_fonts := t_fonts t @ [metadata]\<rparr>)
          else scan_files fs rest (t\<lparr>t_filesFailed := t_filesFailed t + 1,
            t_errors := t_errors t @ [parse_failure file]\<rparr>))"

text \<open>The test that serves a scan from the cache.\<close>

definition cache_hit :: "font_scan_options \<Rightarrow> cache \<Rightarrow> int \<Rightarrow> bool" where
  "cache_hit options c t \<longleftrightarrow>
     useCache options \<noteq> Some False \<and> fontCache c \<noteq> None
     \<and> t - cacheTimestamp c < CACHE_DURATION"

definition cached_result :: "host \<Rightarrow> font_entry list \<Rightarrow> font_scan_result" where
  "cached_result h cached = \<lparr> fonts = cached, errors = [],
     stats = \<lparr> directoriesScanned = 0, filesProcessed = length cached,
       fontsFound = length cached, filesFailed = 0,
       scanTimeMs = endTime h - startTime h \<rparr> \<rparr>"

text \<open>The end of both scans: the cache update and the returned object.\<close>

definition finish_scan ::
  "host \<Rightarrow> font_scan_options \<Rightarrow> cache \<Rightarrow> nat \<Rightarrow> tally \<Rightarrow> font_scan_result \<times> cache" where
  "finish_scan h options c dirs t =
     (\<lparr> fonts = t_fonts t, errors = t_errors t,
        stats = \<lparr> directoriesScanned = dirs, filesProcessed = t_filesProcessed t,
          fontsFound = length (t_fonts t), filesFailed = t_filesFailed t,
          scanTimeMs = endTime h - startTime h \<rparr> \<rparr>,
      if useCache options \<noteq> Some False
      then \<lparr> fontCache = Some (t_fonts t), cacheTimestamp = now h \<rparr>
      else c)"

definition empty_tally :: tally where
  "empty_tally = \<lparr> t_fonts = [], t_errors = [], t_filesProcessed = 0, t_filesFailed = 0 \<rparr>"

definition getAllFontsWithResultSync ::
  "host \<Rightarrow> font_scan_options \<Rightarrow> cache \<Rightarrow> font_scan_result \<times> cache" where
  "getAllFontsWithResultSync h options c =
     (if cache_hit options c (now h) then
        (case fontCache c of
           Some cached \<Rightarrow> (cached_result h cached, c)
         | None \<Rightarrow> (cached_result h [], c))
      else
        let (fontFiles, dirs) = walk h options
        in finish_scan h options c dirs (scan_files (files h) fontFiles empty_tally))"

text \<open>
  The asynchronous scan handles the files in batches of 50. Each callback of \<open>batch.map\<close>
  counts its file and resolves to a success with the font or a failure with the error;
  \<open>Promise.all\<close> keeps the order of the batch.
\<close>

definition batchSize :: nat where
  "batchSize = 50"

definition process_file :: "filesystem \<Rightarrow> jsstring \<Rightarrow> font_error + font_entry" where
  "process_file fs file =
     (case readFontMetadataAsync fs file of
        None \<Rightarrow> Inl (parse_failure file)
      | Some metadata \<Rightarrow>
          if truthy (name metadata) then Inr metadata else Inl (parse_failure file))"

text \<open>The loop \<open>for (const result of batchResults)\<close>.\<close>

fun collect :: "(font_error + font_entry) list \<Rightarrow> tally \<Rightarrow> tally" where
  "collect [] t = t"
| "collect (Inr font # rest) t = collect rest (t\<lparr>t_fonts := t_fonts t @ [font]\<rparr>)"
| "collect (Inl error # rest) t =
     collect rest (t\<lparr>t_filesFailed := t_filesFailed t + 1, t_errors := t_errors t @ [error]\<rparr>)"

function batch_loop :: "filesystem \<Rightarrow> jsstring list \<Rightarrow> nat \<Rightarrow> tally \<Rightarrow> tally" where
  "batch_loop fs fontFiles i t =
     (if i < length fontFiles then
        let batch = take batchSize (drop i fontFiles);
            t = t\<lparr>t_filesProcessed := t_filesProcessed t + length batch\<rparr>;
            batchResults = map (process_file fs) batch
        in batch_loop fs fontFiles (i + batchSize) (collect batchResults t)
      else t)"
  by pat_completeness auto
termination
  by (relation "measure (\<lambda>(fs, fontFiles, i, t). length fontFiles - i)")
     (auto simp: batchSize_def)

declare batch_loop.simps [simp del]

definition getAllFontsWithResultAsync ::
  "host \<Rightarrow> font_scan_options \<Rightarrow> cache \<Rightarrow> font_scan_result \<times> cache" where
  "getAllFontsWithResultAsync h options c =
     (if cache_hit options c (now h) then
        (case fontCache c of
           Some cached \<Rightarrow> (cached_result h cached, c)
         | None \<Rightarrow> (cached_result h [], c))
      else
        let (fontFiles, dirs) = walk h options
        in finish_scan h options c dirs (batch_loop (files h) fontFiles 0 empty_tally))"

section \<open>The cache functions\<close>

definition clearFontCache :: "cache \<Rightarrow> cache" where
  "clearFontCache c = \<lparr> fontCache = None, cacheTimestamp = 0 \<rparr>"

definition getCachedFontCount :: "cache \<Rightarrow> nat" where
  "getCachedFontCount c = (case fontCache c of None \<Rightarrow> 0 | Some cached \<Rightarrow> length cached)"

text \<open>\<open>isCacheValid\<close> reads the clock itself; the reading is its second argument.\<close>

definition isCacheValid :: "cache \<Rightarrow> int \<Rightarrow> bool" where
  "isCacheValid c t \<longleftrightarrow> fontCache c \<noteq> None \<and> t - cacheTimestamp c < CACHE_DURATION"

section \<open>FontScanner\<close>

text \<open>
  The private fields \<open>_filters\<close> (with its properties \<open>format\<close>, \<open>weight\<close>,
  \<open>monospaceOnly\<close> and \<open>nameSearch\<close>) and \<open>_options\<close> of the class.
\<close>

record font_filters =
  f_format :: "jsstring option"
  f_weight :: "int option"
  f_monospaceOnly :: "bool option"
  f_nameSearch :: "(jsstring \<times> bool) option"

record font_scanner =
  scanner_options :: font_scan_options
  scanner_filters :: font_filters

definition filterByFormat :: "jsstring \<Rightarrow> font_scanner \<Rightarrow> font_scanner" where
  "filterByFormat fmt sc =
     sc\<lparr>scanner_filters := (scanner_filters sc)\<lparr>f_format := Some (toLowerCase fmt)\<rparr>\<rparr>"

definition filterByWeight :: "int \<Rightarrow> font_scanner \<Rightarrow> font_scanner" where
  "filterByWeight w sc = sc\<lparr>scanner_filters := (scanner_filters sc)\<lparr>f_weight := Some w\<rparr>\<rparr>"

definition onlyMonospace :: "font_scanner \<Rightarrow> font_scanner" where
  "onlyMonospace sc =
     sc\<lparr>scanner_filters := (scanner_filters sc)\<lparr>f_monospaceOnly := Some True\<rparr>\<rparr>"

definition searchByName :: "jsstring \<Rightarrow> font_scanner \<Rightarrow> font_scanner" where
  "searchByName query sc =
     sc\<lparr>scanner_filters := (scanner_filters sc)\<lparr>f_nameSearch := Some (query, False)\<rparr>\<rparr>"

definition matchNameExactly :: "jsstring \<Rightarrow> font_scanner \<Rightarrow> font_scanner" where
  "matchNameExactly nm sc =
     sc\<lparr>scanner_filters := (scanner_filters sc)\<lparr>f_nameSearch := Some (nm, True)\<rparr>\<rparr>"

text \<open>
  The predicate of the name filter. \<open>font.name.toLowerCase()\<close> throws a TypeError on an entry
  without a name; \<open>font.family?.toLowerCase()\<close> is \<open>undefined\<close> on an entry without a family,
  which equals no string and is falsy.
\<close>

definition name_matches :: "jsstring \<Rightarrow> bool \<Rightarrow> font_entry \<Rightarrow> exn + bool" where
  "name_matches query exact font =
     (case name font of
        None \<Rightarrow> Inl TypeError
      | Some n \<Rightarrow>
          if exact then
            Inr (toLowerCase n = toLowerCase query
                 \<or> map_option toLowerCase (family font) = Some (toLowerCase query))
          else
            Inr (includes_str (toLowerCase n) (toLowerCase query)
                 \<or> (case family font of None \<Rightarrow> False
                     | Some fam \<Rightarrow> includes_str (toLowerCase fam) (toLowerCase query))))"

text \<open>\<open>Array.prototype.filter\<close> with a predicate that may throw.\<close>

fun filter_throwing :: "('a \<Rightarrow> exn + bool) \<Rightarrow> 'a list \<Rightarrow> exn + 'a list" where
  "filter_throwing p [] = Inr []"
| "filter_throwing p (x # xs) =
     (case p x of Inl e \<Rightarrow> Inl e | Inr b \<Rightarrow>
     (case filter_throwing p xs of Inl e \<Rightarrow> Inl e | Inr ys \<Rightarrow> Inr (if b then x # ys else ys)))"

definition applyFilters :: "font_filters \<Rightarrow> font_entry list \<Rightarrow> exn + font_entry list" where
  "applyFilters fl fnts =
     (let filtered = fnts;
          filtered = (if truthy (f_format fl)
            then filter (\<lambda>font. map_option toLowerCase (format font) = f_format fl) filtered
            else filtered);
          filtered = (case f_weight fl of
              Some w \<Rightarrow> filter (\<lambda>font. map_option int (weight font) = Some w) filtered
            | None \<Rightarrow> filtered);
          filtered = (if f_monospaceOnly fl = Some True
            then filter (\<lambda>font. isMonospace font = Some True) filtered
            else filtered)
      in case f_nameSearch fl of
           Some (query, exact) \<Rightarrow> filter_throwing (name_matches query exact) filtered
         | None \<Rightarrow> Inr filtered)"

text \<open>
  \<open>getResult\<close>: the scan, then \<open>result.fonts = this._applyFilters(result.fonts)\<close>. The scan
  has updated the cache before the filters run.
\<close>

definition getResult :: "host \<Rightarrow> font_scanner \<Rightarrow> cache \<Rightarrow> (exn + font_scan_result) \<times> cache" where
  "getResult h sc c =
     (let (result, c') = getAllFontsWithResultSync h (scanner_options sc) c
      in (case applyFilters (scanner_filters sc) (fonts result) of
            Inl e \<Rightarrow> Inl e
          | Inr filtered \<Rightarrow> Inr (result\<lparr>fonts := filtered\<rparr>), c'))"

definition getResultAsync :: "host \<Rightarrow> font_scanner \<Rightarrow> cache \<Rightarrow> (exn + font_scan_result) \<times> cache" where
  "getResultAsync h sc c =
     (let (result, c') = getAllFontsWithResultAsync h (scanner_options sc) c
      in (case applyFilters (scanner_filters sc) (fonts result) of
            Inl e \<Rightarrow> Inl e
          | Inr filtered \<Rightarrow> Inr (result\<lparr>fonts := filtered\<rparr>), c'))"

section \<open>Notions used to state the properties\<close>

text \<open>
  The outcome of one candidate file is a sum: either its error or its font. These two
  functions project the fonts and the errors out of a list of outcomes, in order.
\<close>

fun successes :: "('e + 'a) list \<Rightarrow> 'a list" where
  "successes [] = []"
| "successes (Inr x # rest) = x # successes rest"
| "successes (Inl e # rest) = successes rest"

fun failures :: "('e + 'a) list \<Rightarrow> 'e list" where
  "failures [] = []"
| "failures (Inr x # rest) = failures rest"
| "failures (Inl e # rest) = e # failures rest"

subsection \<open>Concrete inputs\<close>

text \<open>
  A file system with one readable file, \<open>/f/a.woff\<close> (empty), and nothing else; a walk that
  found that file and \<open>/f/b.ttf\<close>, which has vanished since, in one directory.
\<close>

definition demo_fs :: filesystem where
  "demo_fs = \<lparr> statSync = (\<lambda>p. if p = js ''/f/a.woff''
                   then Inr \<lparr> st_size = 0, st_mtime = 7 \<rparr> else Inl ENOENT),
     readFileSync = (\<lambda>p. if p = js ''/f/a.woff'' then Inr [] else Inl ENOENT) \<rparr>"

definition demo_host :: host where
  "demo_host = \<lparr> files = demo_fs, walk = (\<lambda>opts. ([js ''/f/a.woff'', js ''/f/b.ttf''], 1)),
     startTime = 1000, now = 1000, endTime = 1002 \<rparr>"

definition no_cache_options :: font_scan_options where
  "no_cache_options = \<lparr> useCache = Some False, includeSystemFonts = None,
     includeUserFonts = None, customDirs = None \<rparr>"

definition default_options :: font_scan_options where
  "default_options = \<lparr> useCache = None, includeSystemFonts = None,
     includeUserFonts = None, customDirs = None \<rparr>"

definition empty_cache :: cache where
  "empty_cache = \<lparr> fontCache = None, cacheTimestamp = 0 \<rparr>"

definition warm_cache :: cache where
  "warm_cache = \<lparr> fontCache = Some [empty_entry\<lparr>name := Some (js ''Arial'')\<rparr>],
     cacheTimestamp = 900 \<rparr>"

text \<open>
  The fonts held by the cache all carry a non-empty name. The cache starts absent and is
  written by the scans only, which store nothing else.
\<close>

definition cache_named :: "cache \<Rightarrow> bool" where
  "cache_named c \<longleftrightarrow>
     (case fontCache c of None \<Rightarrow> True | Some cached \<Rightarrow> list_all (\<lambda>f. truthy (name f)) cached)"

text \<open>\<open>FontScanner.scan({ useCache: false }).filterByFormat('TTF')\<close>\<close>

definition ttf_only :: font_scanner where
  "ttf_only = filterByFormat (js ''TTF'')
     \<lparr> scanner_options = no_cache_options,
       scanner_filters = \<lparr> f_format = None, f_weight = None, f_monospaceOnly = None,
         f_nameSearch = None \<rparr> \<rparr>"

text \<open>
  The error code the specification gives to a file-system failure: not found, permission
  denied, anything else.
\<close>

definition spec_error_code :: "fs_error \<Rightarrow> error_code" where
  "spec_error_code e =
     (case e of ENOENT \<Rightarrow> FILE_NOT_FOUND | EACCES \<Rightarrow> PERMISSION_DENIED | EIO \<Rightarrow> UNKNOWN)"

subsection \<open>The table directory as the loop sees it\<close>

text \<open>
  The number of whole 16-byte directory entries that lie inside the buffer after the 12-byte
  header, the indices the table loop gets to, and the fields decoded from the table that
  directory entry \<open>i\<close> points to.
\<close>

definition entries_fit :: "buffer \<Rightarrow> nat" where
  "entries_fit buf = (length buf - 12) div 16"

definition visited_tables :: "buffer \<Rightarrow> nat list" where
  "visited_tables buf = [0..<min (u16be buf 4) (entries_fit buf)]"

definition table_tag :: "buffer \<Rightarrow> nat \<Rightarrow> jsstring" where
  "table_tag buf i = toString_ascii buf (12 + i * 16) (12 + i * 16 + 4)"

definition table_offset :: "buffer \<Rightarrow> nat \<Rightarrow> nat" where
  "table_offset buf i = u32be buf (12 + i * 16 + 8)"

definition table_length :: "buffer \<Rightarrow> nat \<Rightarrow> nat" where
  "table_length buf i = u32be buf (12 + i * 16 + 12)"

definition table_data :: "buffer \<Rightarrow> nat \<Rightarrow> font_entry" where
  "table_data buf i =
     (if table_tag buf i = js ''name''
        then parseNameTable buf (table_offset buf i) (table_length buf i)
      else if table_tag buf i = js ''OS/2''
        then parseOS2Table buf (table_offset buf i) (table_length buf i)
      else if table_tag buf i = js ''post''
        then parsePostTable buf (table_offset buf i) (table_length buf i)
      else empty_entry)"

text \<open>The last value present in a list of optional values, and the first one.\<close>

fun last_some :: "'a option list \<Rightarrow> 'a option" where
  "last_some [] = None"
| "last_some (x # xs) = (case last_some xs of None \<Rightarrow> x | Some v \<Rightarrow> Some v)"

fun first_some :: "'a option list \<Rightarrow> 'a option" where
  "first_some [] = None"
| "first_some (x # xs) = (case x of None \<Rightarrow> first_some xs | Some v \<Rightarrow> Some v)"

text \<open>
  The two monospace signals: the PANOSE proportion byte (byte 3 of the ten PANOSE bytes at
  \<open>offset + 32\<close> of the OS/2 table) and the \<open>isFixedPitch\<close> u32 at \<open>offset + 12\<close> of the
  post table. A directory entry signals monospace when it is an OS/2 table that reaches
  \<open>offset + 42\<close> inside the buffer with proportion 9, or a post table that reaches
  \<open>offset + 32\<close> inside the buffer with a non-zero \<open>isFixedPitch\<close>.
\<close>

definition panose_proportion :: "buffer \<Rightarrow> nat \<Rightarrow> byte" where
  "panose_proportion buf offset = buf ! (offset + 32 + 3)"

definition post_isFixedPitch :: "buffer \<Rightarrow> nat \<Rightarrow> nat" where
  "post_isFixedPitch buf offset = u32be buf (offset + 12)"

definition monospace_signal :: "buffer \<Rightarrow> nat \<Rightarrow> bool" where
  "monospace_signal buf i \<longleftrightarrow>
     table_tag buf i = js ''OS/2'' \<and> table_offset buf i + 42 \<le> length buf
       \<and> panose_proportion buf (table_offset buf i) = 9
     \<or> table_tag buf i = js ''post'' \<and> table_offset buf i + 32 \<le> length buf
       \<and> post_isFixedPitch buf (table_offset buf i) \<noteq> 0"

subsection \<open>Concrete buffers\<close>

text \<open>
  A directory that announces five tables in a buffer of 36 bytes: only entry 0 fits, an OS/2
  table of eight bytes at offset 28 with weight 400.
\<close>

definition cut_directory :: buffer where
  "cut_directory = [0,1,0,0, 0,5, 0,0,0,0,0,0,
     0x4F,0x53,0x2F,0x32, 0,0,0,0, 0,0,0,28, 0,0,0,8,
     0,0,0,0, 1,0x90, 0,0]"

text \<open>
  A directory with two OS/2 entries: the first points to a table with weight 400 (offset 44),
  the second to a table with weight 700 (offset 52).
\<close>

definition dup_os2 :: buffer where
  "dup_os2 = [0,1,0,0, 0,2, 0,0,0,0,0,0,
     0x4F,0x53,0x2F,0x32, 0,0,0,0, 0,0,0,44, 0,0,0,8,
     0x4F,0x53,0x2F,0x32, 0,0,0,0, 0,0,0,52, 0,0,0,8,
     0,0,0,0, 1,0x90, 0,0,
     0,0,0,0, 2,0xBC, 0,0]"

text \<open>
  A directory with one post entry: a post table of 32 bytes at offset 28 whose
  \<open>isFixedPitch\<close> is 1.
\<close>

definition fixed_pitch :: buffer where
  "fixed_pitch = [0,1,0,0, 0,1, 0,0,0,0,0,0,
     0x70,0x6F,0x73,0x74, 0,0,0,0, 0,0,0,28, 0,0,0,32,
     0,3,0,0, 0,0,0,0, 0,0,0,0, 0,0,0,1,
     0,0,0,0, 0,0,0,0, 0,0,0,0, 0,0,0,0]"

subsection \<open>The name records as the loop sees them\<close>

text \<open>
  The number of whole 12-byte name records that lie inside the buffer after the 6-byte table
  header; the fields of record \<open>j\<close>; whether the bytes of its string lie inside the buffer;
  and its decoded string: UTF-16BE decoded, NULs removed, trimmed.
\<close>

definition records_fit :: "buffer \<Rightarrow> nat \<Rightarrow> nat" where
  "records_fit buf offset = (length buf - (offset + 6)) div 12"

definition record_nameID :: "buffer \<Rightarrow> nat \<Rightarrow> nat \<Rightarrow> nat" where
  "record_nameID buf offset j = u16be buf (offset + 6 + j * 12 + 6)"

definition record_length :: "buffer \<Rightarrow> nat \<Rightarrow> nat \<Rightarrow> nat" where
  "record_length buf offset j = u16be buf (offset + 6 + j * 12 + 8)"

definition record_start :: "buffer \<Rightarrow> nat \<Rightarrow> nat \<Rightarrow> nat \<Rightarrow> nat" where
  "record_start buf offset stringOffset j = stringOffset + u16be buf (offset + 6 + j * 12 + 10)"

definition record_in_range :: "buffer \<Rightarrow> nat \<Rightarrow> nat \<Rightarrow> nat \<Rightarrow> bool" where
  "record_in_range buf offset stringOffset j \<longleftrightarrow>
     record_start buf offset stringOffset j + record_length buf offset j \<le> length buf"

definition record_text :: "buffer \<Rightarrow> nat \<Rightarrow> nat \<Rightarrow> nat \<Rightarrow> jsstring" where
  "record_text buf offset stringOffset j =
     trim (replace_nul (decodeUtf16BE (slice buf (record_start buf offset stringOffset j)
       (record_start buf offset stringOffset j + record_length buf offset j))))"

text \<open>The string offset of a name table, and the records the loop of a name table visits.\<close>

definition string_offset :: "buffer \<Rightarrow> nat \<Rightarrow> nat" where
  "string_offset buf offset = offset + u16be buf (offset + 4)"

definition visited_records :: "buffer \<Rightarrow> nat \<Rightarrow> nat list" where
  "visited_records buf offset =
     (if offset + 6 > length buf then []
      else [0..<min (u16be buf (offset + 2)) (records_fit buf offset)])"

text \<open>
  What record \<open>j\<close> writes to the field of name identifier \<open>k\<close>: its decoded string, when
  the record has that identifier, its string lies inside the buffer and the decoded string is
  not empty.
\<close>

definition record_writes :: "buffer \<Rightarrow> nat \<Rightarrow> nat \<Rightarrow> nat \<Rightarrow> nat \<Rightarrow> jsstring option" where
  "record_writes buf offset stringOffset k j =
     (if record_nameID buf offset j = k \<and> record_in_range buf offset stringOffset j
         \<and> record_text buf offset stringOffset j \<noteq> []
      then Some (record_text buf offset stringOffset j) else None)"

text \<open>
  The same in the words of the specification, which skips a record only for another
  identifier or for a string outside the buffer.
\<close>

definition spec_record_writes :: "buffer \<Rightarrow> nat \<Rightarrow> nat \<Rightarrow> nat \<Rightarrow> nat \<Rightarrow> jsstring option" where
  "spec_record_writes buf offset stringOffset k j =
     (if record_nameID buf offset j = k \<and> record_in_range buf offset stringOffset j
      then Some (record_text buf offset stringOffset j) else None)"

text \<open>The effect of one visited record on the result.\<close>

definition apply_record :: "buffer \<Rightarrow> nat \<Rightarrow> nat \<Rightarrow> font_entry \<Rightarrow> nat \<Rightarrow> font_entry" where
  "apply_record buf offset stringOffset r j =
     (if record_in_range buf offset stringOffset j \<and> record_text buf offset stringOffset j \<noteq> []
      then set_name_field (record_nameID buf offset j) (record_text buf offset stringOffset j) r
      else r)"

subsection \<open>Concrete name tables\<close>

text \<open>
  Name tables at offset 0 with two records of name identifier 4 and the strings after the
  records. In the first the strings are \<open>Arial\<close> and then \<open>Arial MT\<close>; in the second
  \<open>Arial\<close> and then a string of length 0; in the third \<open>Arial\<close> and then a space followed
  by a NUL.
\<close>

definition arial_then_arial_mt :: buffer where
  "arial_then_arial_mt = [0,0, 0,2, 0,30,
     0,3, 0,1, 4,9, 0,4, 0,10, 0,0,
     0,1, 0,0, 0,0, 0,4, 0,16, 0,10,
     0,0x41, 0,0x72, 0,0x69, 0,0x61, 0,0x6C,
     0,0x41, 0,0x72, 0,0x69, 0,0x61, 0,0x6C, 0,0x20, 0,0x4D, 0,0x54]"

definition arial_then_empty :: buffer where
  "arial_then_empty = [0,0, 0,2, 0,30,
     0,3, 0,1, 4,9, 0,4, 0,10, 0,0,
     0,1, 0,0, 0,0, 0,4, 0,0, 0,10,
     0,0x41, 0,0x72, 0,0x69, 0,0x61, 0,0x6C]"

definition arial_then_blank :: buffer where
  "arial_then_blank = [0,0, 0,2, 0,30,
     0,3, 0,1, 4,9, 0,4, 0,10, 0,0,
     0,1, 0,0, 0,0, 0,4, 0,4, 0,10,
     0,0x41, 0,0x72, 0,0x69, 0,0x61, 0,0x6C,
     0,0x20, 0,0]"

text \<open>
  A file system with one readable, empty file whose extension is in upper case, and one with
  a lower-case \<open>.ttf\<close> file of four bytes, too short for a table directory.
\<close>

definition upper_fs :: filesystem where
  "upper_fs = \<lparr> statSync = (\<lambda>p. if p = js ''/fonts/VGAFIX.FON''
                   then Inr \<lparr> st_size = 0, st_mtime = 7 \<rparr> else Inl ENOENT),
     readFileSync = (\<lambda>p. if p = js ''/fonts/VGAFIX.FON'' then Inr [] else Inl ENOENT) \<rparr>"

definition custom_fs :: filesystem where
  "custom_fs = \<lparr> statSync = (\<lambda>p. if p = js ''/fonts/Custom-Bold.ttf''
                   then Inr \<lparr> st_size = 4, st_mtime = 7 \<rparr> else Inl ENOENT),
     readFileSync = (\<lambda>p. if p = js ''/fonts/Custom-Bold.ttf''
                   then Inr [0, 1, 0, 0] else Inl ENOENT) \<rparr>"

subsection \<open>Concrete inputs for the cache and the synthesized entry\<close>

text \<open>
  The concrete host again, with a scan that starts at 1000 and ends at 400000: the walk and
  the file loop take 399 seconds.
\<close>

definition slow_host :: host where
  "slow_host = demo_host\<lparr>endTime := 400000\<rparr>"

text \<open>
  A font with a name table (offset 44: one record, name identifier 4, the string \<open>Mono\<close>)
  and a post table (offset 70, 32 bytes) whose \<open>isFixedPitch\<close> is 1.
\<close>

definition named_mono :: buffer where
  "named_mono = [0,1,0,0, 0,2, 0,0,0,0,0,0,
     0x6E,0x61,0x6D,0x65, 0,0,0,0, 0,0,0,44, 0,0,0,26,
     0x70,0x6F,0x73,0x74, 0,0,0,0, 0,0,0,70, 0,0,0,32,
     0,0, 0,1, 0,18,
     0,3, 0,1, 4,9, 0,4, 0,8, 0,0,
     0,0x4D, 0,0x6F, 0,0x6E, 0,0x6F,
     0,3,0,0, 0,0,0,0, 0,0,0,0, 0,0,0,1,
     0,0,0,0, 0,0,0,0, 0,0,0,0, 0,0,0,0]"

text \<open>
  A file system with two readable files: \<open>/f/mono.ttf\<close> holds \<open>fixed_pitch\<close>, a post table
  and no name table; \<open>/f/named.ttf\<close> holds \<open>named_mono\<close>.
\<close>

definition mono_fs :: filesystem where
  "mono_fs = \<lparr> statSync = (\<lambda>p. if p = js ''/f/mono.ttf''
                   then Inr \<lparr> st_size = 60, st_mtime = 7 \<rparr>
                 else if p = js ''/f/named.ttf''
                   then Inr \<lparr> st_size = 102, st_mtime = 7 \<rparr>
                 else Inl ENOENT),
     readFileSync = (\<lambda>p. if p = js ''/f/mono.ttf'' then Inr fixed_pitch
                 else if p = js ''/f/named.ttf'' then Inr named_mono
                 else Inl ENOENT) \<rparr>"

section \<open>Verification\<close>

subsection \<open>Outcomes of the file loops\<close>

lemma successes_append: "successes (xs @ ys) = successes xs @ successes ys"
  by (induction xs rule: successes.induct) auto

lemma failures_append: "failures (xs @ ys) = failures xs @ failures ys"
  by (induction xs rule: failures.induct) auto

lemma length_successes_failures: "length (successes xs) + length (failures xs) = length xs"
  by (induction xs rule: successes.induct) auto

lemma readFontMetadataAsync_eq: "readFontMetadataAsync fs p = readFontMetadataSync fs p"
  by (simp add: readFontMetadataAsync_def readFontMetadataSync_def)

lemma scan_files_tally:
  "scan_files fs fontFiles t =
     t\<lparr>t_fonts := t_fonts t @ successes (map (process_file fs) fontFiles),
       t_errors := t_errors t @ failures (map (process_file fs) fontFiles),
       t_filesProcessed := t_filesProcessed t + length fontFiles,
       t_filesFailed := t_filesFailed t + length (failures (map (process_file fs) fontFiles))\<rparr>"
proof (induction fontFiles arbitrary: t)
  case Nil
  show ?case by simp
next
  case (Cons p rest)
  show ?case
    by (cases "readFontMetadataSync fs p")
       (simp_all add: Cons.IH process_file_def readFontMetadataAsync_eq Let_def)
qed

lemma collect_tally:
  "collect rs t =
     t\<lparr>t_fonts := t_fonts t @ successes rs,
       t_errors := t_errors t @ failures rs,
       t_filesFailed := t_filesFailed t + length (failures rs)\<rparr>"
  by (induction rs t rule: collect.induct) simp_all

lemma batch_loop_tally:
  "batch_loop fs fontFiles i t =
     t\<lparr>t_fonts := t_fonts t @ successes (map (process_file fs) (drop i fontFiles)),
       t_errors := t_errors t @ failures (map (process_file fs) (drop i fontFiles)),
       t_filesProcessed := t_filesProcessed t + length (drop i fontFiles),
       t_filesFailed := t_filesFailed t
          + length (failures (map (process_file fs) (drop i fontFiles)))\<rparr>"
proof (induction fs fontFiles i t rule: batch_loop.induct)
  case (1 fs fontFiles i t)
  show ?case
  proof (cases "i < length fontFiles")
    case False
    then show ?thesis by (simp add: batch_loop.simps [of fs fontFiles i t])
  next
    case True
    let ?batch = "take batchSize (drop i fontFiles)"
    let ?rest = "drop (i + batchSize) fontFiles"
    let ?t' = "collect (map (process_file fs) ?batch)
                 (t\<lparr>t_filesProcessed := t_filesProcessed t + length ?batch\<rparr>)"
    have split: "drop i fontFiles = ?batch @ ?rest"
      by (metis add.commute append_take_drop_id drop_drop)
    have len: "length (drop i fontFiles) = length ?batch + length ?rest"
      by (metis split length_append)
    have s: "successes (map (process_file fs) (drop i fontFiles)) =
        successes (map (process_file fs) ?batch) @ successes (map (process_file fs) ?rest)"
      by (subst split) (simp only: map_append successes_append)
    have f: "failures (map (process_file fs) (drop i fontFiles)) =
        failures (map (process_file fs) ?batch) @ failures (map (process_file fs) ?rest)"
      by (subst split) (simp only: map_append failures_append)
    have "batch_loop fs fontFiles i t = batch_loop fs fontFiles (i + batchSize) ?t'"
      by (subst batch_loop.simps) (simp only: True if_True Let_def)
    also have "\<dots> = ?t'\<lparr>t_fonts := t_fonts ?t' @ successes (map (process_file fs) ?rest),
           t_errors := t_errors ?t' @ failures (map (process_file fs) ?rest),
           t_filesProcessed := t_filesProcessed ?t' + length ?rest,
           t_filesFailed := t_filesFailed ?t' + length (failures (map (process_file fs) ?rest))\<rparr>"
      by (rule "1.IH" [OF True refl refl refl])
    also have "\<dots> =
        t\<lparr>t_fonts := t_fonts t @ successes (map (process_file fs) (drop i fontFiles)),
          t_errors := t_errors t @ failures (map (process_file fs) (drop i fontFiles)),
          t_filesProcessed := t_filesProcessed t + length (drop i fontFiles),
          t_filesFailed := t_filesFailed t
            + length (failures (map (process_file fs) (drop i fontFiles)))\<rparr>"
      unfolding s f len collect_tally by simp
    finally show ?thesis .
  qed
qed

lemma batch_loop_scan_files: "batch_loop fs fontFiles 0 t = scan_files fs fontFiles t"
  by (simp add: batch_loop_tally scan_files_tally)

lemma async_eq_sync: "getAllFontsWithResultAsync = getAllFontsWithResultSync"
  by (intro ext) (simp add: getAllFontsWithResultAsync_def getAllFontsWithResultSync_def
      batch_loop_scan_files)

lemma not_hit_sync:
  "\<not> cache_hit options c (now h) \<Longrightarrow>
   getAllFontsWithResultSync h options c =
     finish_scan h options c (snd (walk h options))
       (scan_files (files h) (fst (walk h options)) empty_tally)"
  by (simp add: getAllFontsWithResultSync_def split_beta)

lemma hit_sync:
  "cache_hit options c (now h) \<Longrightarrow>
   getAllFontsWithResultSync h options c = (cached_result h (the (fontCache c)), c)"
  by (auto simp add: getAllFontsWithResultSync_def cache_hit_def)

subsection \<open>C1: every candidate file is accounted for\<close>

text \<open>
  C1. In a scan that is not served from the cache, synchronous or asynchronous, every candidate
  path of the walk has exactly one outcome, a font or an error: the returned fonts are the
  fonts among the outcomes and the returned errors the errors among them, in order. Hence
  \<open>length fonts + length errors\<close> is the number of candidate paths, and the statistics satisfy
  \<open>fontsFound + filesFailed = filesProcessed\<close>. A scan served from the cache reports
  \<open>fontsFound = filesProcessed\<close>, \<open>filesFailed = 0\<close> and \<open>directoriesScanned = 0\<close>.
\<close>

theorem scan_accounts_for_every_candidate:
  assumes "scan = getAllFontsWithResultSync \<or> scan = getAllFontsWithResultAsync"
    and "scan h options c = (r, c')"
  shows "if cache_hit options c (now h)
         then fontsFound (stats r) = filesProcessed (stats r) \<and> filesFailed (stats r) = 0
              \<and> directoriesScanned (stats r) = 0
         else fonts r = successes (map (process_file (files h)) (fst (walk h options)))
              \<and> errors r = failures (map (process_file (files h)) (fst (walk h options)))
              \<and> length (fonts r) + length (errors r) = length (fst (walk h options))
              \<and> filesProcessed (stats r) = length (fst (walk h options))
              \<and> fontsFound (stats r) = length (fonts r)
              \<and> filesFailed (stats r) = length (errors r)
              \<and> fontsFound (stats r) + filesFailed (stats r) = filesProcessed (stats r)"
proof -
  from assms have sync: "getAllFontsWithResultSync h options c = (r, c')"
    by (auto simp: async_eq_sync)
  show ?thesis
  proof (cases "cache_hit options c (now h)")
    case True
    with sync have "r = cached_result h (the (fontCache c))"
      by (auto simp: hit_sync)
    with True show ?thesis by (simp add: cached_result_def)
  next
    case False
    with sync have "r = fst (finish_scan h options c (snd (walk h options))
       (scan_files (files h) (fst (walk h options)) empty_tally))"
      by (simp add: not_hit_sync)
    with False show ?thesis
      by (simp add: finish_scan_def scan_files_tally empty_tally_def length_successes_failures)
  qed
qed

theorem scan_accounts_for_every_candidate_witness:
  "(let r = fst (getAllFontsWithResultAsync demo_host no_cache_options warm_cache)
    in \<not> cache_hit no_cache_options warm_cache (now demo_host)
       \<and> length (fonts r) + length (errors r) = 2
       \<and> fontsFound (stats r) + filesFailed (stats r) = filesProcessed (stats r))
   \<and> (let r = fst (getAllFontsWithResultSync demo_host default_options warm_cache)
      in cache_hit default_options warm_cache (now demo_host)
         \<and> fontsFound (stats r) = filesProcessed (stats r) \<and> filesFailed (stats r) = 0
         \<and> directoriesScanned (stats r) = 0)"
proof -
  have miss: "\<not> cache_hit no_cache_options warm_cache (now demo_host)"
    by (simp add: cache_hit_def no_cache_options_def)
  have hit: "cache_hit default_options warm_cache (now demo_host)"
    by (simp add: cache_hit_def default_options_def warm_cache_def demo_host_def
        CACHE_DURATION_def)
  have two: "length (fst (walk demo_host opts)) = 2" for opts
    by (simp add: demo_host_def)
  note a = scan_accounts_for_every_candidate [OF disjI2 [OF refl] prod.collapse [symmetric],
      where h = demo_host and options = no_cache_options and c = warm_cache]
  note b = scan_accounts_for_every_candidate [OF disjI1 [OF refl] prod.collapse [symmetric],
      where h = demo_host and options = default_options and c = warm_cache]
  note a' = a [unfolded if_not_P [OF miss]]
  note b' = b [unfolded if_P [OF hit]]
  have "length (fonts (fst (getAllFontsWithResultAsync demo_host no_cache_options warm_cache)))
       + length (errors (fst (getAllFontsWithResultAsync demo_host no_cache_options warm_cache)))
     = 2"
    using a' [THEN conjunct2, THEN conjunct2, THEN conjunct1] two by (simp only:)
  moreover have
    "fontsFound (stats (fst (getAllFontsWithResultAsync demo_host no_cache_options warm_cache)))
       + filesFailed (stats (fst (getAllFontsWithResultAsync demo_host no_cache_options
           warm_cache)))
     = filesProcessed (stats (fst (getAllFontsWithResultAsync demo_host no_cache_options
           warm_cache)))"
    using a' by (elim conjE)
  ultimately show ?thesis
    using miss hit b' by (simp only: Let_def simp_thms)
qed

subsection \<open>What a scan returns and stores\<close>

lemma miss_result:
  "\<not> cache_hit options c (now h) \<Longrightarrow>
   fst (getAllFontsWithResultSync h options c) =
     \<lparr> fonts = successes (map (process_file (files h)) (fst (walk h options))),
       errors = failures (map (process_file (files h)) (fst (walk h options))),
       stats = \<lparr> directoriesScanned = snd (walk h options),
         filesProcessed = length (fst (walk h options)),
         fontsFound = length (successes (map (process_file (files h)) (fst (walk h options)))),
         filesFailed = length (failures (map (process_file (files h)) (fst (walk h options)))),
         scanTimeMs = endTime h - startTime h \<rparr> \<rparr>"
  by (simp add: not_hit_sync finish_scan_def scan_files_tally empty_tally_def)

lemma miss_cache:
  assumes "\<not> cache_hit options c (now h)" "useCache options \<noteq> Some False"
  shows "snd (getAllFontsWithResultSync h options c) =
     \<lparr> fontCache = Some (fonts (fst (getAllFontsWithResultSync h options c))),
       cacheTimestamp = now h \<rparr>"
  using assms by (simp add: not_hit_sync finish_scan_def)

subsection \<open>C8: life cycle of the cache\<close>

text \<open>
  C8, as the code has it. A scan (of either kind) with caching enabled that is not served from
  the cache stores its font list together with the clock reading \<open>now\<close> it took at its start,
  before the directory walk. From then on \<open>getCachedFontCount\<close> is the length of that list, and
  \<open>isCacheValid\<close> holds at a clock reading exactly when less than 300000 ms lie between
  \<open>now\<close> and that reading: at the reading with which the scan ends the cache is valid exactly
  when the scan took less than 300000 ms from \<open>now\<close>. A scan with caching enabled whose own
  \<open>now\<close> is less than 300000 ms later is served from the cache: it returns the stored list
  with no errors and leaves the cache as it is. A scan whose own \<open>now\<close> is 300000 ms or more
  later is not served from the cache and returns what its own walk and file loop give. After
  \<open>clearFontCache\<close> the cache is invalid at every time, \<open>getCachedFontCount\<close> is 0 and no
  scan is served from the cache.
\<close>

theorem cache_lifecycle:
  assumes "scan = getAllFontsWithResultSync \<or> scan = getAllFontsWithResultAsync"
    and "useCache options \<noteq> Some False"
    and "\<not> cache_hit options c (now h)"
    and "scan h options c = (r, c')"
  shows "fontCache c' = Some (fonts r)
     \<and> cacheTimestamp c' = now h
     \<and> getCachedFontCount c' = length (fonts r)
     \<and> (\<forall>t. isCacheValid c' t \<longleftrightarrow> t - now h < 300000)
     \<and> (isCacheValid c' (endTime h) \<longleftrightarrow> endTime h - now h < 300000)
     \<and> (\<forall>h' options'. useCache options' \<noteq> Some False \<and> now h' - now h < 300000 \<longrightarrow>
           cache_hit options' c' (now h')
           \<and> scan h' options' c' = (cached_result h' (fonts r), c'))
     \<and> (\<forall>h' options'. 300000 \<le> now h' - now h \<longrightarrow>
           \<not> cache_hit options' c' (now h')
           \<and> fonts (fst (scan h' options' c'))
               = successes (map (process_file (files h')) (fst (walk h' options')))
           \<and> errors (fst (scan h' options' c'))
               = failures (map (process_file (files h')) (fst (walk h' options')))
           \<and> directoriesScanned (stats (fst (scan h' options' c'))) = snd (walk h' options'))
     \<and> (\<forall>t. \<not> isCacheValid (clearFontCache c') t)
     \<and> getCachedFontCount (clearFontCache c') = 0
     \<and> (\<forall>h' options'. \<not> cache_hit options' (clearFontCache c') (now h'))"
proof -
  from assms(1) have scan: "scan = getAllFontsWithResultSync"
    by (auto simp: async_eq_sync)
  from assms(4) have r: "r = fst (getAllFontsWithResultSync h options c)"
    and c': "c' = snd (getAllFontsWithResultSync h options c)"
    by (simp_all add: scan)
  have stored: "c' = \<lparr> fontCache = Some (fonts r), cacheTimestamp = now h \<rparr>"
    unfolding c' r using assms(3,2) by (rule miss_cache)
  have valid: "isCacheValid c' t \<longleftrightarrow> t - now h < 300000" for t
    by (simp add: stored isCacheValid_def CACHE_DURATION_def)
  have served: "cache_hit options' c' (now h')
      \<and> scan h' options' c' = (cached_result h' (fonts r), c')"
    if "useCache options' \<noteq> Some False \<and> now h' - now h < 300000" for h' options'
  proof -
    from that have hit: "cache_hit options' c' (now h')"
      by (simp add: cache_hit_def stored CACHE_DURATION_def)
    have "the (fontCache c') = fonts r"
      by (simp add: stored)
    with hit show ?thesis
      by (simp add: scan hit_sync)
  qed
  have expired: "\<not> cache_hit options' c' (now h')
      \<and> fonts (fst (scan h' options' c'))
          = successes (map (process_file (files h')) (fst (walk h' options')))
      \<and> errors (fst (scan h' options' c'))
          = failures (map (process_file (files h')) (fst (walk h' options')))
      \<and> directoriesScanned (stats (fst (scan h' options' c'))) = snd (walk h' options')"
    if "300000 \<le> now h' - now h" for h' options'
  proof -
    from that have miss: "\<not> cache_hit options' c' (now h')"
      by (simp add: cache_hit_def stored CACHE_DURATION_def)
    then show ?thesis
      by (simp add: scan miss_result)
  qed
  have cleared: "\<not> cache_hit options' (clearFontCache c') t" for options' t
    by (simp add: cache_hit_def clearFontCache_def)
  have "fontCache c' = Some (fonts r)" "cacheTimestamp c' = now h"
    "getCachedFontCount c' = length (fonts r)"
    "\<not> isCacheValid (clearFontCache c') t" "getCachedFontCount (clearFontCache c') = 0" for t
    by (simp_all add: stored getCachedFontCount_def clearFontCache_def isCacheValid_def)
  with valid served expired cleared show ?thesis
    by blast
qed


subsection \<open>The concrete scan\<close>

lemma synthesize_a_woff:
  "synthesize (js ''/f/a.woff'') \<lparr> st_size = 0, st_mtime = 7 \<rparr> [] =
   empty_entry\<lparr>name := Some (js ''a''), path := Some (js ''/f/a.woff''),
     format := Some (js ''woff''), family := Some (js ''a''), fileSize := Some 0,
     lastModified := Some 7\<rparr>"
proof -
  have ext: "extname (js ''/f/a.woff'') = js ''.woff''"
    by (simp add: extname_def last_component_def js_def)
  have low: "toLowerCase (js ''.woff'') = js ''.woff''"
    by (simp add: toLowerCase_def lower_unit_def js_def)
  have base: "basename (js ''/f/a.woff'') (js ''.woff'') = js ''a''"
    by (simp add: basename_def last_component_def js_def)
  show ?thesis
    by (simp add: synthesize_def ext low base Let_def) (simp add: js_def substring_def)
qed

lemma process_a_woff:
  "process_file demo_fs (js ''/f/a.woff'') =
   Inr (empty_entry\<lparr>name := Some (js ''a''), path := Some (js ''/f/a.woff''),
     format := Some (js ''woff''), family := Some (js ''a''), fileSize := Some 0,
     lastModified := Some 7\<rparr>)"
  by (simp add: process_file_def readFontMetadataAsync_def demo_fs_def synthesize_a_woff
      truthy_def) (simp add: js_def)

lemma process_b_ttf:
  "process_file demo_fs (js ''/f/b.ttf'') = Inl (parse_failure (js ''/f/b.ttf''))"
  by (simp add: process_file_def readFontMetadataAsync_def demo_fs_def) (simp add: js_def)

lemma demo_scan:
  assumes miss: "\<not> cache_hit options c (now demo_host)"
  shows "fst (getAllFontsWithResultSync demo_host options c) =
     \<lparr> fonts = [empty_entry\<lparr>name := Some (js ''a''), path := Some (js ''/f/a.woff''),
         format := Some (js ''woff''), family := Some (js ''a''), fileSize := Some 0,
         lastModified := Some 7\<rparr>],
       errors = [parse_failure (js ''/f/b.ttf'')],
       stats = \<lparr> directoriesScanned = 1, filesProcessed = 2, fontsFound = 1,
         filesFailed = 1, scanTimeMs = 2 \<rparr> \<rparr>"
proof -
  have w: "walk demo_host options = ([js ''/f/a.woff'', js ''/f/b.ttf''], 1)"
    by (simp add: demo_host_def)
  have f: "files demo_host = demo_fs" "endTime demo_host = 1002" "startTime demo_host = 1000"
    by (simp_all add: demo_host_def)
  show ?thesis
    by (simp add: not_hit_sync [OF miss] w f finish_scan_def scan_files_tally empty_tally_def
        process_a_woff process_b_ttf)
qed

lemma no_cache_miss: "\<not> cache_hit no_cache_options c t"
  by (simp add: cache_hit_def no_cache_options_def)

lemma empty_cache_miss: "\<not> cache_hit options empty_cache t"
  by (simp add: cache_hit_def empty_cache_def)

theorem cache_lifecycle_witness:
  "useCache default_options \<noteq> Some False
   \<and> \<not> cache_hit default_options empty_cache (now demo_host)
   \<and> (let c' = snd (getAllFontsWithResultSync demo_host default_options empty_cache)
      in getCachedFontCount c' = 1
         \<and> isCacheValid c' (endTime demo_host) \<and> isCacheValid c' 300999
         \<and> \<not> isCacheValid c' 301000
         \<and> cache_hit default_options c' (now (demo_host\<lparr>now := 2000\<rparr>))
         \<and> fonts (fst (getAllFontsWithResultSync (demo_host\<lparr>now := 2000\<rparr>) default_options c'))
            = fonts (fst (getAllFontsWithResultSync demo_host default_options empty_cache))
         \<and> \<not> cache_hit default_options c' (now (demo_host\<lparr>now := 301000\<rparr>))
         \<and> \<not> isCacheValid (clearFontCache c') 1000
         \<and> getCachedFontCount (clearFontCache c') = 0)"
proof -
  have use: "useCache default_options \<noteq> Some False"
    by (simp add: default_options_def)
  have n: "now demo_host = 1000" "endTime demo_host = 1002"
    "now (demo_host\<lparr>now := 2000\<rparr>) = 2000" "now (demo_host\<lparr>now := 301000\<rparr>) = 301000"
    by (simp_all add: demo_host_def)
  note l = cache_lifecycle [OF disjI1 [OF refl] use empty_cache_miss prod.collapse [symmetric],
      of demo_host]
  have one: "length (fonts (fst (getAllFontsWithResultSync demo_host default_options
      empty_cache))) = 1"
    by (simp add: demo_scan [OF empty_cache_miss])
  note count = l [THEN conjunct2, THEN conjunct2, THEN conjunct1]
  note valid = l [THEN conjunct2, THEN conjunct2, THEN conjunct2, THEN conjunct1, rule_format]
  note served = l [THEN conjunct2, THEN conjunct2, THEN conjunct2, THEN conjunct2,
      THEN conjunct2, THEN conjunct1, rule_format,
      of default_options "demo_host\<lparr>now := 2000\<rparr>"]
  note expired = l [THEN conjunct2, THEN conjunct2, THEN conjunct2, THEN conjunct2,
      THEN conjunct2, THEN conjunct2, THEN conjunct1, rule_format,
      of "demo_host\<lparr>now := 301000\<rparr>" default_options]
  note cleared = l [THEN conjunct2, THEN conjunct2, THEN conjunct2, THEN conjunct2,
      THEN conjunct2, THEN conjunct2, THEN conjunct2]
  have s: "cache_hit default_options
        (snd (getAllFontsWithResultSync demo_host default_options empty_cache)) 2000"
    "fonts (fst (getAllFontsWithResultSync (demo_host\<lparr>now := 2000\<rparr>) default_options
        (snd (getAllFontsWithResultSync demo_host default_options empty_cache))))
     = fonts (fst (getAllFontsWithResultSync demo_host default_options empty_cache))"
    using served use by (simp_all add: n cached_result_def)
  have e: "\<not> cache_hit default_options
        (snd (getAllFontsWithResultSync demo_host default_options empty_cache)) 301000"
    using expired by (simp add: n)
  note cl1 = cleared [THEN conjunct1, rule_format, of 1000]
  note cl2 = cleared [THEN conjunct2, THEN conjunct1]
  from count one valid cl1 cl2 s e use empty_cache_miss show ?thesis
    by (simp add: Let_def n)
qed

text \<open>
  C8 as the specification words it has the cache valid, and read back, immediately after the
  scan has stored its list. The time stamp stored is the reading taken before the walk. The
  scan of \<open>slow_host\<close> starts at 1000 and ends at 400000: it stores its list, and at the
  reading with which it ends the cache is not valid and a scan with caching enabled is not
  served from it.
\<close>

theorem cache_lifecycle_slow_scan_counterexample:
  "useCache default_options \<noteq> Some False
   \<and> \<not> cache_hit default_options empty_cache (now slow_host)
   \<and> fontCache (snd (getAllFontsWithResultSync slow_host default_options empty_cache))
       = Some (fonts (fst (getAllFontsWithResultSync slow_host default_options empty_cache)))
   \<and> scanTimeMs (stats (fst (getAllFontsWithResultSync slow_host default_options empty_cache)))
       = 399000
   \<and> \<not> isCacheValid (snd (getAllFontsWithResultSync slow_host default_options empty_cache))
         (endTime slow_host)
   \<and> \<not> cache_hit default_options
         (snd (getAllFontsWithResultSync slow_host default_options empty_cache))
         (endTime slow_host)"
proof -
  have use: "useCache default_options \<noteq> Some False"
    by (simp add: default_options_def)
  have n: "now slow_host = 1000" "endTime slow_host = 400000" "startTime slow_host = 1000"
    by (simp_all add: slow_host_def demo_host_def)
  have stored: "snd (getAllFontsWithResultSync slow_host default_options empty_cache) =
     \<lparr> fontCache = Some (fonts (fst (getAllFontsWithResultSync slow_host default_options
         empty_cache))), cacheTimestamp = 1000 \<rparr>"
    using miss_cache [OF empty_cache_miss use, of slow_host] by (simp add: n)
  have time: "scanTimeMs (stats (fst (getAllFontsWithResultSync slow_host default_options
      empty_cache))) = 399000"
    by (simp add: miss_result [OF empty_cache_miss] n)
  have "\<not> isCacheValid \<lparr> fontCache = Some fs, cacheTimestamp = 1000 \<rparr> 400000"
    "\<not> cache_hit default_options \<lparr> fontCache = Some fs, cacheTimestamp = 1000 \<rparr> 400000" for fs
    by (simp_all add: isCacheValid_def cache_hit_def CACHE_DURATION_def)
  with use time empty_cache_miss show ?thesis
    unfolding n by (subst (1 2 3) stored) simp
qed

subsection \<open>C6: the error code of a file-system failure\<close>

text \<open>
  C6 as the specification words it asks for FILE_NOT_FOUND, PERMISSION_DENIED or UNKNOWN,
  according to the kind of failure. The scan of the concrete host meets a file that does not
  exist any more and records PARSE_ERROR for it.
\<close>

theorem fs_failure_code_counterexample:
  "statSync (files demo_host) (js ''/f/b.ttf'') = Inl ENOENT
   \<and> errors (fst (getAllFontsWithResultSync demo_host no_cache_options empty_cache))
       = [\<lparr> error_path = js ''/f/b.ttf'', message = js ''Failed to extract font metadata'',
            code = PARSE_ERROR \<rparr>]
   \<and> PARSE_ERROR \<noteq> spec_error_code ENOENT
   \<and> PARSE_ERROR \<notin> {FILE_NOT_FOUND, PERMISSION_DENIED, UNKNOWN}"
proof -
  have "statSync (files demo_host) (js ''/f/b.ttf'') = Inl ENOENT"
    by (simp add: demo_host_def demo_fs_def) (simp add: js_def)
  then show ?thesis
    by (simp add: demo_scan [OF no_cache_miss] parse_failure_def spec_error_code_def)
qed

lemma failures_member: "Inl e \<in> set xs \<Longrightarrow> e \<in> set (failures xs)"
  by (induction xs rule: failures.induct) auto

lemma process_file_io_failure:
  "isl (statSync fs p) \<or> isl (readFileSync fs p) \<Longrightarrow> process_file fs p = Inl (parse_failure p)"
  by (auto simp: process_file_def readFontMetadataAsync_def isl_def split: sum.splits)

lemma process_file_failures:
  "e \<in> set (failures (map (process_file fs) ps)) \<Longrightarrow> \<exists>p \<in> set ps. e = parse_failure p"
proof (induction ps)
  case Nil
  then show ?case by simp
next
  case (Cons p ps)
  then show ?case
    by (cases "process_file fs p")
       (auto simp: process_file_def split: option.splits if_splits)
qed

text \<open>
  C6, as the code has it. In a scan that is not served from the cache, every candidate path
  whose \<open>stat\<close> or read fails is recorded as a FontError with that path, the message
  \<open>Failed to extract font metadata\<close> and the code PARSE_ERROR, whatever the kind of failure;
  and every error that any scan reports has the code PARSE_ERROR.
\<close>

theorem fs_failure_recorded_as_parse_error:
  assumes "scan = getAllFontsWithResultSync \<or> scan = getAllFontsWithResultAsync"
    and "scan h options c = (r, c')"
  shows "(\<not> cache_hit options c (now h) \<longrightarrow>
           (\<forall>p \<in> set (fst (walk h options)).
              isl (statSync (files h) p) \<or> isl (readFileSync (files h) p) \<longrightarrow>
              \<lparr> error_path = p, message = js ''Failed to extract font metadata'',
                code = PARSE_ERROR \<rparr> \<in> set (errors r)))
         \<and> (\<forall>e \<in> set (errors r). code e = PARSE_ERROR)"
proof (cases "cache_hit options c (now h)")
  case True
  from assms have "r = fst (getAllFontsWithResultSync h options c)"
    by (auto simp: async_eq_sync)
  with True show ?thesis
    by (simp add: hit_sync cached_result_def)
next
  case False
  from assms have "r = fst (getAllFontsWithResultSync h options c)"
    by (auto simp: async_eq_sync)
  with False have errs:
    "errors r = failures (map (process_file (files h)) (fst (walk h options)))"
    by (simp add: miss_result)
  have "parse_failure p \<in> set (errors r)"
    if "p \<in> set (fst (walk h options))"
      "isl (statSync (files h) p) \<or> isl (readFileSync (files h) p)" for p
  proof -
    from that have "Inl (parse_failure p)
        \<in> set (map (process_file (files h)) (fst (walk h options)))"
      by (metis image_eqI list.set_map process_file_io_failure)
    then show ?thesis unfolding errs by (rule failures_member)
  qed
  moreover have "code e = PARSE_ERROR" if "e \<in> set (errors r)" for e
    using process_file_failures [OF that [unfolded errs]] by (auto simp: parse_failure_def)
  ultimately show ?thesis
    by (simp add: parse_failure_def)
qed

theorem fs_failure_recorded_as_parse_error_witness:
  "\<not> cache_hit no_cache_options empty_cache (now demo_host)
   \<and> js ''/f/b.ttf'' \<in> set (fst (walk demo_host no_cache_options))
   \<and> isl (statSync (files demo_host) (js ''/f/b.ttf''))
   \<and> \<lparr> error_path = js ''/f/b.ttf'', message = js ''Failed to extract font metadata'',
        code = PARSE_ERROR \<rparr>
      \<in> set (errors (fst (getAllFontsWithResultSync demo_host no_cache_options empty_cache)))"
proof -
  have miss: "\<not> cache_hit no_cache_options empty_cache (now demo_host)"
    by (simp add: cache_hit_def no_cache_options_def)
  have cand: "js ''/f/b.ttf'' \<in> set (fst (walk demo_host no_cache_options))"
    by (simp add: demo_host_def)
  have gone: "isl (statSync (files demo_host) (js ''/f/b.ttf''))"
    by (simp add: demo_host_def demo_fs_def) (simp add: js_def)
  from fs_failure_recorded_as_parse_error [OF disjI1 [OF refl] prod.collapse [symmetric],
      where h = demo_host and options = no_cache_options and c = empty_cache]
    cand gone miss
  show ?thesis by blast
qed

subsection \<open>C9: getResult filters the fonts only\<close>

lemma filter_throwing_named:
  "list_all (\<lambda>f. truthy (name f)) fs \<Longrightarrow>
   filter_throwing (name_matches q ex) fs =
     Inr (filter (\<lambda>f. name_matches q ex f = Inr True) fs)"
proof (induction fs)
  case Nil
  show ?case by simp
next
  case (Cons f fs)
  from Cons.prems obtain n where n: "name f = Some n"
    by (cases "name f") (auto simp: truthy_def)
  then obtain b where b: "name_matches q ex f = Inr b"
    by (cases ex) (simp_all add: name_matches_def)
  from Cons show ?case
    by (simp add: b)
qed

lemma applyFilters_named:
  assumes "list_all (\<lambda>f. truthy (name f)) fs"
  shows "\<exists>ys. applyFilters fl fs = Inr ys \<and> set ys \<subseteq> set fs \<and> length ys \<le> length fs"
proof -
  define a where "a = (if truthy (f_format fl)
            then filter (\<lambda>font. map_option toLowerCase (format font) = f_format fl) fs
            else fs)"
  define b where "b = (case f_weight fl of
              Some w \<Rightarrow> filter (\<lambda>font. map_option int (weight font) = Some w) a
            | None \<Rightarrow> a)"
  define d where "d = (if f_monospaceOnly fl = Some True
            then filter (\<lambda>font. isMonospace font = Some True) b
            else b)"
  have a: "set a \<subseteq> set fs" "length a \<le> length fs"
    by (auto simp: a_def)
  have b: "set b \<subseteq> set a" "length b \<le> length a"
    by (auto simp: b_def split: option.splits)
  have d: "set d \<subseteq> set b" "length d \<le> length b"
    by (auto simp: d_def)
  from a b d have sub: "set d \<subseteq> set fs" and len: "length d \<le> length fs"
    by auto
  from assms sub have named: "list_all (\<lambda>f. truthy (name f)) d"
    by (auto simp: list_all_iff)
  have eq: "applyFilters fl fs = (case f_nameSearch fl of
           Some (query, exact) \<Rightarrow> filter_throwing (name_matches query exact) d
         | None \<Rightarrow> Inr d)"
    by (simp only: applyFilters_def Let_def a_def b_def d_def)
  show ?thesis
  proof (cases "f_nameSearch fl")
    case None
    with eq sub len show ?thesis by simp
  next
    case (Some qe)
    obtain q ex where qe: "qe = (q, ex)" by (cases qe)
    have "applyFilters fl fs = Inr (filter (\<lambda>f. name_matches q ex f = Inr True) d)"
      by (simp add: eq Some qe filter_throwing_named [OF named])
    moreover have "set (filter (\<lambda>f. name_matches q ex f = Inr True) d) \<subseteq> set fs"
      using sub by auto
    moreover have "length (filter (\<lambda>f. name_matches q ex f = Inr True) d) \<le> length fs"
      using len by (meson le_trans length_filter_le)
    ultimately show ?thesis by blast
  qed
qed

lemma successes_named:
  "list_all (\<lambda>f. truthy (name f)) (successes (map (process_file fs) ps))"
proof (induction ps)
  case Nil
  show ?case by simp
next
  case (Cons p ps)
  then show ?case
    by (cases "process_file fs p")
       (auto simp: process_file_def split: option.splits if_splits)
qed

lemma scan_fonts_named:
  assumes "cache_named c"
  shows "list_all (\<lambda>f. truthy (name f)) (fonts (fst (getAllFontsWithResultSync h options c)))"
    and "cache_named (snd (getAllFontsWithResultSync h options c))"
    and "fontsFound (stats (fst (getAllFontsWithResultSync h options c)))
         = length (fonts (fst (getAllFontsWithResultSync h options c)))"
proof -
  show "list_all (\<lambda>f. truthy (name f)) (fonts (fst (getAllFontsWithResultSync h options c)))"
  proof (cases "cache_hit options c (now h)")
    case True
    with assms show ?thesis
      by (auto simp: hit_sync cached_result_def cache_named_def cache_hit_def)
  next
    case False
    then show ?thesis by (simp add: miss_result successes_named)
  qed
  show "cache_named (snd (getAllFontsWithResultSync h options c))"
  proof (cases "cache_hit options c (now h)")
    case True
    with assms show ?thesis by (simp add: hit_sync)
  next
    case False
    with assms show ?thesis
      by (simp add: not_hit_sync finish_scan_def scan_files_tally empty_tally_def
          cache_named_def successes_named)
  qed
  show "fontsFound (stats (fst (getAllFontsWithResultSync h options c)))
         = length (fonts (fst (getAllFontsWithResultSync h options c)))"
    by (cases "cache_hit options c (now h)")
       (simp_all add: hit_sync cached_result_def miss_result)
qed

lemma getResultAsync_eq: "getResultAsync = getResult"
  by (intro ext) (simp add: getResultAsync_def getResult_def async_eq_sync)

lemma demo_filtered:
  "getResult demo_host ttf_only empty_cache =
     (Inr \<lparr> fonts = [], errors = [parse_failure (js ''/f/b.ttf'')],
       stats = \<lparr> directoriesScanned = 1, filesProcessed = 2, fontsFound = 1,
         filesFailed = 1, scanTimeMs = 2 \<rparr> \<rparr>, empty_cache)"
proof -
  have low: "toLowerCase (js ''TTF'') = js ''ttf''" "toLowerCase (js ''woff'') = js ''woff''"
    by (simp_all add: toLowerCase_def lower_unit_def js_def)
  have ne: "js ''woff'' \<noteq> js ''ttf''" "js ''ttf'' \<noteq> []"
    by (simp_all add: js_def)
  have c: "snd (getAllFontsWithResultSync demo_host no_cache_options empty_cache) = empty_cache"
    by (simp add: getAllFontsWithResultSync_def cache_hit_def no_cache_options_def
        finish_scan_def split_beta)
  have "getAllFontsWithResultSync demo_host no_cache_options empty_cache
     = (fst (getAllFontsWithResultSync demo_host no_cache_options empty_cache), empty_cache)"
    by (metis c prod.collapse)
  then show ?thesis
    by (simp add: getResult_def ttf_only_def filterByFormat_def demo_scan [OF no_cache_miss]
        applyFilters_def truthy_def low ne)
qed

text \<open>
  C9. With a cache whose fonts are named (as every cache written by a scan is),
  \<open>getResult\<close> and \<open>getResultAsync\<close> return normally; the fonts of the result are the
  fonts of the scan passed through the accumulated filters, while the errors and all the
  statistics are those of the unfiltered scan, and the cache is the one the scan left. So
  \<open>fontsFound\<close> bounds the length of the returned list, and can exceed it: filtering the
  concrete scan by format \<open>ttf\<close> returns no font with \<open>fontsFound = 1\<close>.
\<close>

theorem getResult_filters_only_fonts:
  assumes "get = getResult \<or> get = getResultAsync"
    and "cache_named c"
  shows "(\<exists>r. get h sc c = (Inr r, snd (getAllFontsWithResultSync h (scanner_options sc) c))
      \<and> applyFilters (scanner_filters sc)
            (fonts (fst (getAllFontsWithResultSync h (scanner_options sc) c))) = Inr (fonts r)
      \<and> errors r = errors (fst (getAllFontsWithResultSync h (scanner_options sc) c))
      \<and> stats r = stats (fst (getAllFontsWithResultSync h (scanner_options sc) c))
      \<and> set (fonts r) \<subseteq> set (fonts (fst (getAllFontsWithResultSync h (scanner_options sc) c)))
      \<and> length (fonts r) \<le> fontsFound (stats r)
      \<and> cache_named (snd (getAllFontsWithResultSync h (scanner_options sc) c)))
    \<and> (\<exists>h sc c r c'. cache_named c \<and> getResult h sc c = (Inr r, c')
      \<and> length (fonts r) < fontsFound (stats r))"
proof (rule conjI)
  let ?scan = "getAllFontsWithResultSync h (scanner_options sc) c"
  from assms(1) have get: "get = getResult"
    by (auto simp: getResultAsync_eq)
  note named = scan_fonts_named [OF assms(2), of h "scanner_options sc"]
  from applyFilters_named [OF named(1), of "scanner_filters sc"]
  obtain ys where ys: "applyFilters (scanner_filters sc) (fonts (fst ?scan)) = Inr ys"
    "set ys \<subseteq> set (fonts (fst ?scan))" "length ys \<le> length (fonts (fst ?scan))"
    by blast
  have "get h sc c = (Inr ((fst ?scan)\<lparr>fonts := ys\<rparr>), snd ?scan)"
    by (simp add: get getResult_def split_beta ys(1))
  with ys named show "\<exists>r. get h sc c = (Inr r, snd ?scan)
      \<and> applyFilters (scanner_filters sc) (fonts (fst ?scan)) = Inr (fonts r)
      \<and> errors r = errors (fst ?scan)
      \<and> stats r = stats (fst ?scan)
      \<and> set (fonts r) \<subseteq> set (fonts (fst ?scan))
      \<and> length (fonts r) \<le> fontsFound (stats r)
      \<and> cache_named (snd ?scan)"
    by simp
next
  have "cache_named empty_cache"
    by (simp add: cache_named_def empty_cache_def)
  with demo_filtered show "\<exists>h sc c r c'. cache_named c \<and> getResult h sc c = (Inr r, c')
      \<and> length (fonts r) < fontsFound (stats r)"
    by (intro exI [of _ demo_host] exI [of _ ttf_only] exI [of _ empty_cache]) fastforce
qed

theorem getResult_filters_only_fonts_witness:
  "cache_named empty_cache
   \<and> (\<exists>r. getResult demo_host ttf_only empty_cache = (Inr r, empty_cache)
         \<and> fonts r = []
         \<and> errors r = errors (fst (getAllFontsWithResultSync demo_host no_cache_options
              empty_cache))
         \<and> stats r = stats (fst (getAllFontsWithResultSync demo_host no_cache_options
              empty_cache))
         \<and> fontsFound (stats r) = 1)"
proof -
  have named: "cache_named empty_cache"
    by (simp add: cache_named_def empty_cache_def)
  have opts: "scanner_options ttf_only = no_cache_options"
    by (simp add: ttf_only_def filterByFormat_def)
  from getResult_filters_only_fonts [OF disjI1 [OF refl] named, THEN conjunct1,
      of demo_host ttf_only]
  obtain r where r: "getResult demo_host ttf_only empty_cache
        = (Inr r, snd (getAllFontsWithResultSync demo_host no_cache_options empty_cache))"
      "errors r = errors (fst (getAllFontsWithResultSync demo_host no_cache_options
          empty_cache))"
      "stats r = stats (fst (getAllFontsWithResultSync demo_host no_cache_options
          empty_cache))"
    unfolding opts by blast
  from r(1) demo_filtered have "fonts r = []" "fontsFound (stats r) = 1"
    "snd (getAllFontsWithResultSync demo_host no_cache_options empty_cache) = empty_cache"
    by auto
  with r named show ?thesis by auto
qed

subsection \<open>The table loop as a fold over the directory entries that fit\<close>

lemma ovr_None [simp]: "ovr a None = a"
  by (simp add: ovr_def)

lemma ovr_Some [simp]: "ovr a (Some v) = Some v"
  by (simp add: ovr_def)

lemma ovr_None_left [simp]: "ovr None x = x"
  by (cases x) simp_all

lemma assign_empty [simp]: "assign m empty_entry = m"
  by (simp add: assign_def empty_entry_def)

lemma fits_iff: "12 + i * 16 + 16 \<le> length buf \<longleftrightarrow> i < entries_fit buf"
proof -
  have "i < (length buf - 12) div 16 \<longleftrightarrow> Suc i \<le> (length buf - 12) div 16"
    by (simp add: Suc_le_eq)
  also have "\<dots> \<longleftrightarrow> Suc i * 16 \<le> length buf - 12"
    by (simp add: less_eq_div_iff_mult_less_eq)
  also have "\<dots> \<longleftrightarrow> 12 + i * 16 + 16 \<le> length buf"
    by auto
  finally show ?thesis by (simp add: entries_fit_def)
qed


lemma table_body_fits:
  assumes "i < entries_fit buf"
  shows "table_body buf i m = Inr (Continue (assign m (table_data buf i)))"
proof -
  from assms have fit: "12 + i * 16 + 16 \<le> length buf"
    by (rule fits_iff [THEN iffD2])
  then have r1: "readUInt32BE buf (12 + i * 16 + 8) = Inr (table_offset buf i)"
    and r2: "readUInt32BE buf (12 + i * 16 + 12) = Inr (table_length buf i)"
    by (simp_all add: readUInt32BE_def table_offset_def table_length_def)
  from fit r1 r2 show ?thesis
    by (simp add: table_body_def Let_def table_data_def table_tag_def)
qed

lemma table_body_cut:
  assumes "\<not> i < entries_fit buf"
  shows "table_body buf i m = Inr (Break m)"
proof -
  from assms have "length buf < 12 + i * 16 + 16"
    using fits_iff [of i buf] by linarith
  then show ?thesis
    by (simp add: table_body_def Let_def)
qed

lemma table_loop_fold:
  "table_loop buf n i m =
     Inr (foldl assign m (map (table_data buf) [i..<min n (entries_fit buf)]))"
proof (induction buf n i m rule: table_loop.induct)
  case (1 buf numTables i m)
  show ?case
  proof (cases "i < numTables \<and> i < entries_fit buf")
    case True
    then have "[i..<min numTables (entries_fit buf)]
        = i # [i + 1..<min numTables (entries_fit buf)]"
      by (simp add: upt_conv_Cons)
    moreover from True have "table_loop buf numTables i m
        = table_loop buf numTables (i + 1) (assign m (table_data buf i))"
      by (subst table_loop.simps) (simp add: table_body_fits)
    moreover from True have "table_loop buf numTables (i + 1) (assign m (table_data buf i))
        = Inr (foldl assign (assign m (table_data buf i))
            (map (table_data buf) [i + 1..<min numTables (entries_fit buf)]))"
      by (intro "1.IH") (simp_all add: table_body_fits)
    ultimately show ?thesis by simp
  next
    case False
    then have "min numTables (entries_fit buf) \<le> i"
      by auto
    moreover from False have "table_loop buf numTables i m = Inr m"
      by (subst table_loop.simps) (auto simp: table_body_cut)
    ultimately show ?thesis by simp
  qed
qed

lemma parseTTFOTFFont_try_fold:
  "parseTTFOTFFont_try buf =
     (if length buf < 12 then Inr None
      else Inr (Some (foldl assign empty_entry (map (table_data buf) (visited_tables buf)))))"
  by (simp add: parseTTFOTFFont_try_def readUInt16BE_def table_loop_fold visited_tables_def)

lemma parseTTFOTFFont_fold:
  "parseTTFOTFFont buf =
     (if length buf < 12 then None
      else Some (foldl assign empty_entry (map (table_data buf) (visited_tables buf))))"
  by (simp add: parseTTFOTFFont_def parseTTFOTFFont_try_fold)

subsection \<open>C2: short and truncated buffers\<close>

text \<open>
  C2. On a buffer shorter than 12 bytes the \<open>try\<close> block of \<open>parseTTFOTFFont\<close> returns
  \<open>null\<close> without throwing. On every buffer the \<open>try\<close> block never throws, so no read
  goes past the end of the buffer. When the 16 bytes of directory entry \<open>i\<close> do not lie
  inside the buffer, the loop body does not throw and the loop stops there, returning the
  metadata collected so far unchanged. Hence, on a buffer of at least 12 bytes, the result
  is the metadata merged, in order, from exactly the directory entries below \<open>numTables\<close>
  that fit in the buffer.
\<close>

theorem directory_parser_tolerates_truncation:
  "(length buf < 12 \<longrightarrow> parseTTFOTFFont_try buf = Inr None \<and> parseTTFOTFFont buf = None)
   \<and> (\<forall>e. parseTTFOTFFont_try buf \<noteq> Inl e)
   \<and> (\<forall>numTables i m. length buf < 12 + i * 16 + 16 \<longrightarrow>
         (\<forall>e. table_body buf i m \<noteq> Inl e) \<and> table_loop buf numTables i m = Inr m)
   \<and> (12 \<le> length buf \<longrightarrow>
         parseTTFOTFFont buf = Some (foldl assign empty_entry
           (map (table_data buf) [0..<min (u16be buf 4) ((length buf - 12) div 16)])))"
proof -
  have "table_loop buf numTables i m = Inr m \<and> table_body buf i m \<noteq> Inl e"
    if "length buf < 12 + i * 16 + 16" for numTables i m e
  proof -
    from that have "\<not> i < entries_fit buf"
      using fits_iff [of i buf] by linarith
    then show ?thesis
      by (simp add: table_loop_fold table_body_cut)
  qed
  then show ?thesis
    by (simp add: parseTTFOTFFont_fold parseTTFOTFFont_try_fold visited_tables_def
        entries_fit_def)
qed


lemma cut_directory_data:
  "table_data cut_directory 0 = empty_entry\<lparr>weight := Some 400\<rparr>"
  by (simp add: table_data_def table_tag_def table_offset_def table_length_def
      toString_ascii_def slice_def js_def u32be_def cut_directory_def
      parseOS2Table_def readUInt16BE_def u16be_def os2_panose_def)

theorem directory_parser_tolerates_truncation_witness:
  "length [0, 1, 0, 0 :: byte] < 12
   \<and> parseTTFOTFFont [0, 1, 0, 0] = None
   \<and> 12 \<le> length cut_directory
   \<and> length cut_directory < 12 + 1 * 16 + 16
   \<and> table_loop cut_directory 5 1 (empty_entry\<lparr>weight := Some 400\<rparr>)
       = Inr (empty_entry\<lparr>weight := Some 400\<rparr>)
   \<and> parseTTFOTFFont cut_directory = Some (empty_entry\<lparr>weight := Some 400\<rparr>)"
proof -
  note short = directory_parser_tolerates_truncation [of "[0, 1, 0, 0]", THEN conjunct1]
  note cut = directory_parser_tolerates_truncation [of cut_directory, THEN conjunct2,
      THEN conjunct2]
  have len: "length cut_directory = 36"
    by (simp add: cut_directory_def)
  have n: "u16be cut_directory 4 = 5"
    by (simp add: u16be_def cut_directory_def)
  have "parseTTFOTFFont cut_directory = Some (empty_entry\<lparr>weight := Some 400\<rparr>)"
    using cut [THEN conjunct2] by (simp add: len n cut_directory_data assign_def empty_entry_def)
  moreover have "table_loop cut_directory 5 1 (empty_entry\<lparr>weight := Some 400\<rparr>)
       = Inr (empty_entry\<lparr>weight := Some 400\<rparr>)"
    using cut [THEN conjunct1, rule_format, of 1] by (simp add: len)
  ultimately show ?thesis
    using short by (simp add: len)
qed

subsection \<open>C7: directory entries with the same tag\<close>

lemma last_some_append:
  "last_some (xs @ [x]) = (case x of None \<Rightarrow> last_some xs | Some v \<Rightarrow> Some v)"
  by (induction xs) (auto split: option.splits)

lemma foldl_ovr: "foldl ovr a xs = ovr a (last_some xs)"
  by (induction xs rule: rev_induct) (auto simp: last_some_append split: option.splits)

lemma name_foldl_assign: "name (foldl assign m ds) = foldl ovr (name m) (map name ds)"
  by (induction ds arbitrary: m) (simp_all add: assign_def)

lemma family_foldl_assign: "family (foldl assign m ds) = foldl ovr (family m) (map family ds)"
  by (induction ds arbitrary: m) (simp_all add: assign_def)

lemma version_foldl_assign: "version (foldl assign m ds) = foldl ovr (version m) (map version ds)"
  by (induction ds arbitrary: m) (simp_all add: assign_def)

lemma copyright_foldl_assign:
  "copyright (foldl assign m ds) = foldl ovr (copyright m) (map copyright ds)"
  by (induction ds arbitrary: m) (simp_all add: assign_def)

lemma weight_foldl_assign: "weight (foldl assign m ds) = foldl ovr (weight m) (map weight ds)"
  by (induction ds arbitrary: m) (simp_all add: assign_def)

lemma style_foldl_assign: "style (foldl assign m ds) = foldl ovr (style m) (map style ds)"
  by (induction ds arbitrary: m) (simp_all add: assign_def)

lemma isMonospace_foldl_assign:
  "isMonospace (foldl assign m ds) = foldl ovr (isMonospace m) (map isMonospace ds)"
  by (induction ds arbitrary: m) (simp_all add: assign_def)

lemmas field_foldl_assign = name_foldl_assign family_foldl_assign version_foldl_assign
  copyright_foldl_assign weight_foldl_assign style_foldl_assign isMonospace_foldl_assign

lemma empty_entry_fields [simp]:
  "name empty_entry = None" "family empty_entry = None" "version empty_entry = None"
  "copyright empty_entry = None" "weight empty_entry = None" "style empty_entry = None"
  "isMonospace empty_entry = None" "path empty_entry = None" "format empty_entry = None"
  "fileSize empty_entry = None" "lastModified empty_entry = None"
  by (simp_all add: empty_entry_def)

text \<open>
  C7, as the code has it. On a buffer of at least 12 bytes the parser returns metadata in which
  every field has the value given by the last directory entry, in directory order among the
  entries the loop visits, whose table yields that field. So a later entry with the same
  tag replaces each field it yields and leaves the fields it does not yield as the earlier
  entries set them.
\<close>

theorem duplicate_tags_last_writer_wins:
  assumes "12 \<le> length buf"
  shows "\<exists>m. parseTTFOTFFont buf = Some m
     \<and> name m = last_some (map (\<lambda>i. name (table_data buf i)) (visited_tables buf))
     \<and> family m = last_some (map (\<lambda>i. family (table_data buf i)) (visited_tables buf))
     \<and> version m = last_some (map (\<lambda>i. version (table_data buf i)) (visited_tables buf))
     \<and> copyright m = last_some (map (\<lambda>i. copyright (table_data buf i)) (visited_tables buf))
     \<and> weight m = last_some (map (\<lambda>i. weight (table_data buf i)) (visited_tables buf))
     \<and> style m = last_some (map (\<lambda>i. style (table_data buf i)) (visited_tables buf))
     \<and> isMonospace m
         = last_some (map (\<lambda>i. isMonospace (table_data buf i)) (visited_tables buf))"
  using assms
  by (simp add: parseTTFOTFFont_fold field_foldl_assign foldl_ovr comp_def)

lemma dup_os2_data:
  "table_tag dup_os2 0 = js ''OS/2''" "table_tag dup_os2 (Suc 0) = js ''OS/2''"
  "table_data dup_os2 0 = empty_entry\<lparr>weight := Some 400\<rparr>"
  "table_data dup_os2 (Suc 0) = empty_entry\<lparr>weight := Some 700\<rparr>"
  by (simp_all add: table_data_def table_tag_def table_offset_def table_length_def
      toString_ascii_def slice_def js_def u32be_def dup_os2_def
      parseOS2Table_def readUInt16BE_def u16be_def os2_panose_def)

lemma dup_os2_offsets:
  "table_offset dup_os2 0 = 44" "table_offset dup_os2 (Suc 0) = 52" "length dup_os2 = 60"
  by (simp_all add: table_offset_def u32be_def dup_os2_def)

lemma dup_os2_visited: "visited_tables dup_os2 = [0, Suc 0]"
  by (simp add: visited_tables_def entries_fit_def u16be_def dup_os2_def upt_rec)

text \<open>
  C7 as the specification words it keeps the first occurrence of a duplicate tag. In \<open>dup_os2\<close> both
  directory entries have the tag \<open>OS/2\<close>, with weights 400 and 700; the parsed weight is 700.
\<close>

theorem duplicate_tag_first_occurrence_counterexample:
  "table_tag dup_os2 0 = table_tag dup_os2 1
   \<and> visited_tables dup_os2 = [0, 1]
   \<and> weight (table_data dup_os2 0) = Some 400
   \<and> weight (table_data dup_os2 1) = Some 700
   \<and> map_option weight (parseTTFOTFFont dup_os2) = Some (Some 700)
   \<and> map_option weight (parseTTFOTFFont dup_os2)
       \<noteq> Some (first_some [weight (table_data dup_os2 0), weight (table_data dup_os2 1)])"
proof -
  have "12 \<le> length dup_os2"
    by (simp add: dup_os2_def)
  then show ?thesis
    by (simp add: parseTTFOTFFont_fold dup_os2_visited dup_os2_data assign_def)
qed

theorem duplicate_tags_last_writer_wins_witness:
  "12 \<le> length dup_os2
   \<and> (\<exists>m. parseTTFOTFFont dup_os2 = Some m \<and> weight m = Some 700 \<and> name m = None)"
proof -
  have len: "12 \<le> length dup_os2"
    by (simp add: dup_os2_def)
  from duplicate_tags_last_writer_wins [OF len] len show ?thesis
    by (auto simp: dup_os2_visited dup_os2_data)
qed


subsection \<open>isMonospace in the decoders\<close>

lemma isMonospace_parseOS2Table:
  "isMonospace (parseOS2Table buf offset len) =
     (if offset + 42 \<le> length buf \<and> panose_proportion buf offset = 9 then Some True else None)"
proof -
  have at3: "at (slice buf (offset + 32) (offset + 42)) 3 = Some (panose_proportion buf offset)"
    if "offset + 42 \<le> length buf"
    using that by (simp add: at_def slice_def panose_proportion_def add.commute)
  have panose: "isMonospace (os2_panose buf offset r) =
      (if offset + 42 \<le> length buf \<and> panose_proportion buf offset = 9 then Some True
       else isMonospace r)" for r
    by (simp add: os2_panose_def Let_def at3)
  show ?thesis
    by (simp add: parseOS2Table_def readUInt16BE_def Let_def panose)
qed

lemma isMonospace_parsePostTable:
  "isMonospace (parsePostTable buf offset len) =
     (if offset + 32 \<le> length buf \<and> post_isFixedPitch buf offset \<noteq> 0 then Some True else None)"
  by (simp add: parsePostTable_def readUInt32BE_def post_isFixedPitch_def)

lemma isMonospace_set_name_field [simp]:
  "isMonospace (set_name_field nameID s r) = isMonospace r"
  by (simp add: set_name_field_def)

lemma isMonospace_name_body:
  "name_body buf offset so j r = Break r' \<or> name_body buf offset so j r = Continue r'
   \<Longrightarrow> isMonospace r' = isMonospace r"
  by (auto simp: name_body_def Let_def split: if_splits sum.splits)

lemma isMonospace_name_loop:
  "isMonospace (name_loop buf offset so count j r) = isMonospace r"
proof (induction buf offset so count j r rule: name_loop.induct)
  case (1 buf offset so count j r)
  show ?case
  proof (cases "j < count")
    case False
    then show ?thesis by (simp add: name_loop.simps)
  next
    case True
    show ?thesis
    proof (cases "name_body buf offset so j r")
      case (Break r')
      with True isMonospace_name_body [of buf offset so j r r'] show ?thesis
        by (simp add: name_loop.simps [of buf offset so count j r])
    next
      case (Continue r')
      with True "1.IH" [OF True Continue] isMonospace_name_body [of buf offset so j r r']
      show ?thesis
        by (simp add: name_loop.simps [of buf offset so count j r])
    qed
  qed
qed

lemma isMonospace_parseNameTable: "isMonospace (parseNameTable buf offset len) = None"
  by (simp add: parseNameTable_def isMonospace_name_loop split: sum.splits)

lemma tags_distinct:
  "js ''OS/2'' \<noteq> js ''name''" "js ''post'' \<noteq> js ''name''" "js ''post'' \<noteq> js ''OS/2''"
  by (simp_all add: js_def)

lemma isMonospace_table_data:
  "isMonospace (table_data buf i) = (if monospace_signal buf i then Some True else None)"
  by (auto simp: table_data_def monospace_signal_def isMonospace_parseOS2Table
      isMonospace_parsePostTable isMonospace_parseNameTable tags_distinct)

lemma last_some_signal:
  "last_some (map (\<lambda>i. if P i then Some True else None) xs)
     = (if \<exists>i \<in> set xs. P i then Some True else None)"
  by (induction xs) auto

lemma fixed_pitch_facts:
  "12 \<le> length fixed_pitch" "visited_tables fixed_pitch = [0]"
  "table_tag fixed_pitch 0 = js ''post''" "table_offset fixed_pitch 0 = 28"
  "length fixed_pitch = 60" "post_isFixedPitch fixed_pitch 28 = 1"
  by (simp_all add: fixed_pitch_def visited_tables_def entries_fit_def u16be_def
      table_tag_def table_offset_def toString_ascii_def slice_def js_def u32be_def
      post_isFixedPitch_def)

subsection \<open>The name loop as a fold over the records that fit\<close>

lemma record_fits_iff:
  "offset + 6 + j * 12 + 12 \<le> length buf \<longleftrightarrow> j < records_fit buf offset"
proof -
  have "j < (length buf - (offset + 6)) div 12 \<longleftrightarrow> Suc j \<le> (length buf - (offset + 6)) div 12"
    by (simp add: Suc_le_eq)
  also have "\<dots> \<longleftrightarrow> Suc j * 12 \<le> length buf - (offset + 6)"
    by (simp add: less_eq_div_iff_mult_less_eq)
  also have "\<dots> \<longleftrightarrow> offset + 6 + j * 12 + 12 \<le> length buf"
    by auto
  finally show ?thesis by (simp add: records_fit_def)
qed

lemma name_body_fits:
  assumes "j < records_fit buf offset"
  shows "name_body buf offset so j r = Continue (apply_record buf offset so r j)"
proof -
  from assms have fit: "offset + 6 + j * 12 + 12 \<le> length buf"
    by (rule record_fits_iff [THEN iffD2])
  then have r1: "readUInt16BE buf (offset + 6 + j * 12 + 6) = Inr (record_nameID buf offset j)"
    and r2: "readUInt16BE buf (offset + 6 + j * 12 + 8) = Inr (record_length buf offset j)"
    and r3: "readUInt16BE buf (offset + 6 + j * 12 + 10)
        = Inr (u16be buf (offset + 6 + j * 12 + 10))"
    by (simp_all add: readUInt16BE_def record_nameID_def record_length_def)
  have nf: "\<not> offset + 6 + j * 12 + 12 > length buf"
    using fit by simp
  show ?thesis
    unfolding name_body_def Let_def r1 r2 r3 if_not_P [OF nf] sum.case
    by (simp add: apply_record_def record_in_range_def record_text_def record_start_def)
qed

lemma name_body_cut:
  assumes "\<not> j < records_fit buf offset"
  shows "name_body buf offset so j r = Break r"
proof -
  from assms have "length buf < offset + 6 + j * 12 + 12"
    using record_fits_iff [of offset j buf] by linarith
  then show ?thesis
    by (simp add: name_body_def Let_def)
qed

lemma name_loop_fold:
  "name_loop buf offset so count j r =
     foldl (apply_record buf offset so) r [j..<min count (records_fit buf offset)]"
proof (induction buf offset so count j r rule: name_loop.induct)
  case (1 buf offset so count j r)
  show ?case
  proof (cases "j < count \<and> j < records_fit buf offset")
    case True
    then have "[j..<min count (records_fit buf offset)]
        = j # [j + 1..<min count (records_fit buf offset)]"
      by (simp add: upt_conv_Cons)
    moreover from True have "name_loop buf offset so count j r
        = name_loop buf offset so count (j + 1) (apply_record buf offset so r j)"
      by (subst name_loop.simps) (simp add: name_body_fits)
    moreover from True have
      "name_loop buf offset so count (j + 1) (apply_record buf offset so r j)
        = foldl (apply_record buf offset so) (apply_record buf offset so r j)
            [j + 1..<min count (records_fit buf offset)]"
      by (intro "1.IH") (simp_all add: name_body_fits)
    ultimately show ?thesis by simp
  next
    case False
    then have "min count (records_fit buf offset) \<le> j"
      by auto
    moreover from False have "name_loop buf offset so count j r = r"
      by (subst name_loop.simps) (auto simp: name_body_cut)
    ultimately show ?thesis by simp
  qed
qed

lemma parseNameTable_fold:
  "parseNameTable buf offset len =
     foldl (apply_record buf offset (string_offset buf offset)) empty_entry
       (visited_records buf offset)"
  by (simp add: parseNameTable_def readUInt16BE_def name_loop_fold visited_records_def
      string_offset_def)


subsection \<open>C3: which record gives a name field its value\<close>

lemma apply_record_fields:
  "copyright (apply_record buf offset so r j)
     = ovr (copyright r) (record_writes buf offset so 0 j)"
  "family (apply_record buf offset so r j) = ovr (family r) (record_writes buf offset so 1 j)"
  "name (apply_record buf offset so r j) = ovr (name r) (record_writes buf offset so 4 j)"
  "version (apply_record buf offset so r j) = ovr (version r) (record_writes buf offset so 5 j)"
  by (simp_all add: apply_record_def record_writes_def set_name_field_def)

lemma apply_record_others:
  "weight (apply_record buf offset so r j) = weight r"
  "style (apply_record buf offset so r j) = style r"
  "isMonospace (apply_record buf offset so r j) = isMonospace r"
  "path (apply_record buf offset so r j) = path r"
  "format (apply_record buf offset so r j) = format r"
  "fileSize (apply_record buf offset so r j) = fileSize r"
  "lastModified (apply_record buf offset so r j) = lastModified r"
  by (simp_all add: apply_record_def set_name_field_def)

lemma ovr_ovr_last_some: "ovr (ovr a x) (last_some xs) = ovr a (last_some (x # xs))"
  by (cases "last_some xs") simp_all

lemma foldl_apply_record_fields:
  "copyright (foldl (apply_record buf offset so) r idx)
     = ovr (copyright r) (last_some (map (record_writes buf offset so 0) idx))"
  "family (foldl (apply_record buf offset so) r idx)
     = ovr (family r) (last_some (map (record_writes buf offset so 1) idx))"
  "name (foldl (apply_record buf offset so) r idx)
     = ovr (name r) (last_some (map (record_writes buf offset so 4) idx))"
  "version (foldl (apply_record buf offset so) r idx)
     = ovr (version r) (last_some (map (record_writes buf offset so 5) idx))"
  by (induction idx arbitrary: r)
     (simp_all add: apply_record_fields ovr_ovr_last_some del: last_some.simps(2))

lemma foldl_apply_record_others:
  "weight (foldl (apply_record buf offset so) r idx) = weight r"
  "style (foldl (apply_record buf offset so) r idx) = style r"
  "isMonospace (foldl (apply_record buf offset so) r idx) = isMonospace r"
  "path (foldl (apply_record buf offset so) r idx) = path r"
  "format (foldl (apply_record buf offset so) r idx) = format r"
  "fileSize (foldl (apply_record buf offset so) r idx) = fileSize r"
  "lastModified (foldl (apply_record buf offset so) r idx) = lastModified r"
  by (induction idx arbitrary: r) (simp_all add: apply_record_others)

lemma name_parseNameTable:
  "name (parseNameTable buf offset len)
     = last_some (map (record_writes buf offset (string_offset buf offset) 4)
         (visited_records buf offset))"
  by (simp add: parseNameTable_fold foldl_apply_record_fields)

text \<open>
  C3, as the code has it. In the result of \<open>parseNameTable\<close>, \<open>copyright\<close> comes from the
  records with name identifier 0, \<open>family\<close> from 1, \<open>name\<close> from 4 and \<open>version\<close> from 5,
  and no other field is set. A record with another identifier, a record whose string does not
  lie inside the buffer, and a record whose decoded string is empty write nothing, without
  error. Each of the four fields holds what the last record that writes to it wrote, in the
  order of the records in the table; it is absent when no record writes to it. So with
  \<open>Arial\<close> followed by \<open>Arial MT\<close>, both with identifier 4, the name is \<open>Arial MT\<close>.
\<close>

theorem name_table_last_nonempty_record_wins:
  "copyright (parseNameTable buf offset len)
     = last_some (map (record_writes buf offset (string_offset buf offset) 0)
         (visited_records buf offset))
   \<and> family (parseNameTable buf offset len)
     = last_some (map (record_writes buf offset (string_offset buf offset) 1)
         (visited_records buf offset))
   \<and> name (parseNameTable buf offset len)
     = last_some (map (record_writes buf offset (string_offset buf offset) 4)
         (visited_records buf offset))
   \<and> version (parseNameTable buf offset len)
     = last_some (map (record_writes buf offset (string_offset buf offset) 5)
         (visited_records buf offset))
   \<and> weight (parseNameTable buf offset len) = None
   \<and> style (parseNameTable buf offset len) = None
   \<and> isMonospace (parseNameTable buf offset len) = None
   \<and> path (parseNameTable buf offset len) = None
   \<and> format (parseNameTable buf offset len) = None
   \<and> fileSize (parseNameTable buf offset len) = None
   \<and> lastModified (parseNameTable buf offset len) = None"
  by (simp add: parseNameTable_fold foldl_apply_record_fields foldl_apply_record_others)

lemma text_arial: "trim (replace_nul (decodeUtf16BE
    [0,0x41, 0,0x72, 0,0x69, 0,0x61, 0,0x6C])) = js ''Arial''"
  by (simp add: trim_def replace_nul_def is_white_def js_def)

lemma text_arial_mt: "trim (replace_nul (decodeUtf16BE
    [0,0x41, 0,0x72, 0,0x69, 0,0x61, 0,0x6C, 0,0x20, 0,0x4D, 0,0x54])) = js ''Arial MT''"
  by (simp add: trim_def replace_nul_def is_white_def js_def)

lemma text_blank: "trim (replace_nul (decodeUtf16BE [0,0x20, 0,0])) = []"
  by (simp add: trim_def replace_nul_def is_white_def)

lemma arial_then_arial_mt_records:
  "visited_records arial_then_arial_mt 0 = [0, Suc 0]"
  "string_offset arial_then_arial_mt 0 = 30"
  "record_writes arial_then_arial_mt 0 30 4 0 = Some (js ''Arial'')"
  "record_writes arial_then_arial_mt 0 30 4 (Suc 0) = Some (js ''Arial MT'')"
proof -
  show "visited_records arial_then_arial_mt 0 = [0, Suc 0]"
    by (simp add: visited_records_def records_fit_def u16be_def arial_then_arial_mt_def upt_rec)
  show "string_offset arial_then_arial_mt 0 = 30"
    by (simp add: string_offset_def u16be_def arial_then_arial_mt_def)
  have t0: "record_text arial_then_arial_mt 0 30 0 = js ''Arial''"
    unfolding text_arial [symmetric]
    by (simp add: record_text_def record_start_def record_length_def u16be_def slice_def
        arial_then_arial_mt_def)
  have t1: "record_text arial_then_arial_mt 0 30 (Suc 0) = js ''Arial MT''"
    unfolding text_arial_mt [symmetric]
    by (simp add: record_text_def record_start_def record_length_def u16be_def slice_def
        arial_then_arial_mt_def)
  have ne: "js ''Arial'' \<noteq> []" "js ''Arial MT'' \<noteq> []"
    by (simp_all add: js_def)
  show "record_writes arial_then_arial_mt 0 30 4 0 = Some (js ''Arial'')"
    unfolding record_writes_def t0
    by (simp add: ne record_nameID_def record_in_range_def record_start_def record_length_def
        u16be_def arial_then_arial_mt_def)
  show "record_writes arial_then_arial_mt 0 30 4 (Suc 0) = Some (js ''Arial MT'')"
    unfolding record_writes_def t1
    by (simp add: ne record_nameID_def record_in_range_def record_start_def record_length_def
        u16be_def arial_then_arial_mt_def)
qed

theorem name_table_last_nonempty_record_wins_witness:
  "record_writes arial_then_arial_mt 0 (string_offset arial_then_arial_mt 0) 4 0
     = Some (js ''Arial'')
   \<and> record_writes arial_then_arial_mt 0 (string_offset arial_then_arial_mt 0) 4 1
     = Some (js ''Arial MT'')
   \<and> name (parseNameTable arial_then_arial_mt 0 56) = Some (js ''Arial MT'')"
  using name_table_last_nonempty_record_wins [of arial_then_arial_mt 0 56]
  by (simp add: arial_then_arial_mt_records)


lemma arial_then_empty_records:
  "visited_records arial_then_empty 0 = [0, Suc 0]"
  "string_offset arial_then_empty 0 = 30"
  "record_nameID arial_then_empty 0 0 = 4"
  "record_nameID arial_then_empty 0 (Suc 0) = 4"
  "record_in_range arial_then_empty 0 30 0"
  "record_in_range arial_then_empty 0 30 (Suc 0)"
  "record_text arial_then_empty 0 30 0 = js ''Arial''"
  "record_text arial_then_empty 0 30 (Suc 0) = []"
proof -
  show "visited_records arial_then_empty 0 = [0, Suc 0]"
    by (simp add: visited_records_def records_fit_def u16be_def arial_then_empty_def upt_rec)
  show "string_offset arial_then_empty 0 = 30"
    by (simp add: string_offset_def u16be_def arial_then_empty_def)
  show "record_nameID arial_then_empty 0 0 = 4" "record_nameID arial_then_empty 0 (Suc 0) = 4"
    by (simp_all add: record_nameID_def u16be_def arial_then_empty_def)
  show "record_in_range arial_then_empty 0 30 0" "record_in_range arial_then_empty 0 30 (Suc 0)"
    by (simp_all add: record_in_range_def record_start_def record_length_def u16be_def
        arial_then_empty_def)
  show "record_text arial_then_empty 0 30 0 = js ''Arial''"
    unfolding text_arial [symmetric]
    by (simp add: record_text_def record_start_def record_length_def u16be_def slice_def
        arial_then_empty_def)
  show "record_text arial_then_empty 0 30 (Suc 0) = []"
    by (simp add: record_text_def record_start_def record_length_def u16be_def slice_def
        arial_then_empty_def trim_def replace_nul_def)
qed

text \<open>
  C3 as the specification words it: the last record with identifier 4 whose string lies
  inside the buffer wins. In \<open>arial_then_empty\<close> that record has a string of length 0, and
  the name is still \<open>Arial\<close>.
\<close>

theorem name_table_last_record_counterexample:
  "record_nameID arial_then_empty 0 0 = 4 \<and> record_nameID arial_then_empty 0 1 = 4
   \<and> record_in_range arial_then_empty 0 (string_offset arial_then_empty 0) 1
   \<and> last_some (map (spec_record_writes arial_then_empty 0 (string_offset arial_then_empty 0) 4)
        (visited_records arial_then_empty 0)) = Some []
   \<and> name (parseNameTable arial_then_empty 0 40) = Some (js ''Arial'')
   \<and> name (parseNameTable arial_then_empty 0 40)
      \<noteq> last_some (map (spec_record_writes arial_then_empty 0
            (string_offset arial_then_empty 0) 4) (visited_records arial_then_empty 0))"
proof -
  have ne: "js ''Arial'' \<noteq> []"
    by (simp add: js_def)
  have "name (parseNameTable arial_then_empty 0 40) = Some (js ''Arial'')"
    by (simp add: name_parseNameTable arial_then_empty_records record_writes_def ne)
  then show ?thesis
    by (simp add: arial_then_empty_records spec_record_writes_def ne)
qed

subsection \<open>C10: a record that decodes to the empty string\<close>

text \<open>
  C10. A record whose string, after UTF-16BE decoding, removal of NULs and trimming, is empty
  assigns no field, whatever its name identifier: the loop body leaves the result as it is
  and the loop goes on with the next record (or stops, when the record does not fit in the
  buffer). Such a record therefore writes to no field, and a value written by an earlier
  record stays in place.
\<close>

theorem empty_decoded_record_assigns_nothing:
  assumes "record_text buf offset so j = []"
  shows "name_body buf offset so j r
       = (if j < records_fit buf offset then Continue r else Break r)
     \<and> name_loop buf offset so count j r
       = (if j < count \<and> j < records_fit buf offset
          then name_loop buf offset so count (j + 1) r else r)
     \<and> (\<forall>k. record_writes buf offset so k j = None)"
proof -
  have body: "name_body buf offset so j r
       = (if j < records_fit buf offset then Continue r else Break r)"
    using assms by (simp add: name_body_fits name_body_cut apply_record_def)
  moreover have "name_loop buf offset so count j r
       = (if j < count \<and> j < records_fit buf offset
          then name_loop buf offset so count (j + 1) r else r)"
    by (subst name_loop.simps) (simp add: body)
  ultimately show ?thesis
    using assms by (simp add: record_writes_def)
qed

lemma arial_then_blank_records:
  "visited_records arial_then_blank 0 = [0, Suc 0]"
  "string_offset arial_then_blank 0 = 30"
  "records_fit arial_then_blank 0 = 3"
  "record_writes arial_then_blank 0 30 4 0 = Some (js ''Arial'')"
  "record_text arial_then_blank 0 30 (Suc 0) = []"
proof -
  show "visited_records arial_then_blank 0 = [0, Suc 0]"
    by (simp add: visited_records_def records_fit_def u16be_def arial_then_blank_def upt_rec)
  show "string_offset arial_then_blank 0 = 30"
    by (simp add: string_offset_def u16be_def arial_then_blank_def)
  show "records_fit arial_then_blank 0 = 3"
    by (simp add: records_fit_def arial_then_blank_def)
  have t0: "record_text arial_then_blank 0 30 0 = js ''Arial''"
    unfolding text_arial [symmetric]
    by (simp add: record_text_def record_start_def record_length_def u16be_def slice_def
        arial_then_blank_def)
  have ne: "js ''Arial'' \<noteq> []"
    by (simp add: js_def)
  show "record_writes arial_then_blank 0 30 4 0 = Some (js ''Arial'')"
    unfolding record_writes_def t0
    by (simp add: ne record_nameID_def record_in_range_def record_start_def record_length_def
        u16be_def arial_then_blank_def)
  show "record_text arial_then_blank 0 30 (Suc 0) = []"
    unfolding text_blank [symmetric]
    by (simp add: record_text_def record_start_def record_length_def u16be_def slice_def
        arial_then_blank_def)
qed

theorem empty_decoded_record_assigns_nothing_witness:
  "record_text arial_then_blank 0 30 1 = []
   \<and> record_nameID arial_then_blank 0 1 = 4
   \<and> name_body arial_then_blank 0 30 1 (empty_entry\<lparr>name := Some (js ''Arial'')\<rparr>)
       = Continue (empty_entry\<lparr>name := Some (js ''Arial'')\<rparr>)
   \<and> name (parseNameTable arial_then_blank 0 44) = Some (js ''Arial'')"
proof -
  have blank: "record_text arial_then_blank 0 30 1 = []"
    by (simp add: arial_then_blank_records)
  have id: "record_nameID arial_then_blank 0 1 = 4"
    by (simp add: record_nameID_def u16be_def arial_then_blank_def)
  note e = empty_decoded_record_assigns_nothing [OF blank]
  have "name (parseNameTable arial_then_blank 0 44) = Some (js ''Arial'')"
    using e [THEN conjunct2, THEN conjunct2]
    by (simp add: name_parseNameTable arial_then_blank_records)
  with blank id e [THEN conjunct1, of "empty_entry\<lparr>name := Some (js ''Arial'')\<rparr>"]
  show ?thesis
    by (simp add: arial_then_blank_records)
qed

subsection \<open>C5: the filename fallback\<close>

text \<open>
  Synthesis returns an entry exactly when both the \<open>stat\<close> and the read succeed, whatever
  the bytes of the file are. When the extension is not \<open>.ttf\<close>, \<open>.otf\<close> or \<open>.ttc\<close>, or
  the tables yield no name, \<open>name\<close> and \<open>family\<close> are
  \<open>path.basename(fontPath, ext)\<close> with the lower-cased extension. When the extension of
  the file is in lower case already, that is the file name without its extension:
  \<open>Custom-Bold.ttf\<close> with an unusable table directory gives \<open>Custom-Bold\<close>.
\<close>

lemma readFontMetadataSync_returns_iff:
  "readFontMetadataSync fs p \<noteq> None \<longleftrightarrow> \<not> isl (statSync fs p) \<and> \<not> isl (readFileSync fs p)"
  by (simp add: readFontMetadataSync_def isl_def split: sum.splits)

lemma readFontMetadataSync_synthesize:
  "statSync fs p = Inr st \<Longrightarrow> readFileSync fs p = Inr buf \<Longrightarrow>
   readFontMetadataSync fs p = Some (synthesize p st buf)"
  by (simp add: readFontMetadataSync_def)

lemma synthesize_fallback:
  assumes "toLowerCase (extname p) \<notin> {js ''.ttf'', js ''.otf'', js ''.ttc''}
     \<or> (\<forall>m. parseTTFOTFFont buf = Some m \<longrightarrow> \<not> truthy (name m))"
  shows "name (synthesize p st buf) = Some (basename p (toLowerCase (extname p)))"
    and "family (synthesize p st buf) = Some (basename p (toLowerCase (extname p)))"
  using assms by (auto simp: synthesize_def Let_def split: option.splits)

lemma custom_bold_paths:
  "extname (js ''/fonts/Custom-Bold.ttf'') = js ''.ttf''"
  "toLowerCase (js ''.ttf'') = js ''.ttf''"
  "basename (js ''/fonts/Custom-Bold.ttf'') (js ''.ttf'') = js ''Custom-Bold''"
  by (simp_all add: extname_def basename_def last_component_def toLowerCase_def lower_unit_def
      js_def)

lemma custom_bold_fallback:
  "map_option name (readFontMetadataSync custom_fs (js ''/fonts/Custom-Bold.ttf''))
     = Some (Some (js ''Custom-Bold''))"
  "map_option family (readFontMetadataSync custom_fs (js ''/fonts/Custom-Bold.ttf''))
     = Some (Some (js ''Custom-Bold''))"
proof -
  have short: "parseTTFOTFFont [0, 1, 0, 0] = None"
    by (simp add: parseTTFOTFFont_fold)
  have r: "readFontMetadataSync custom_fs (js ''/fonts/Custom-Bold.ttf'')
      = Some (synthesize (js ''/fonts/Custom-Bold.ttf'') \<lparr> st_size = 4, st_mtime = 7 \<rparr>
          [0, 1, 0, 0])"
    by (simp add: readFontMetadataSync_def custom_fs_def)
  show "map_option name (readFontMetadataSync custom_fs (js ''/fonts/Custom-Bold.ttf''))
     = Some (Some (js ''Custom-Bold''))"
    by (simp add: r synthesize_fallback short custom_bold_paths)
  show "map_option family (readFontMetadataSync custom_fs (js ''/fonts/Custom-Bold.ttf''))
     = Some (Some (js ''Custom-Bold''))"
    by (simp add: r synthesize_fallback short custom_bold_paths)
qed


lemma length_last_component: "length (last_component p) \<le> length p"
proof -
  have "length (takeWhile (\<lambda>c. c \<noteq> 0x2F) (dropWhile (\<lambda>c. c = 0x2F) (rev p)))
      \<le> length (dropWhile (\<lambda>c. c = 0x2F) (rev p))"
    by (rule length_takeWhile_le)
  also have "\<dots> \<le> length (rev p)"
    by (rule length_dropWhile_le)
  finally show ?thesis by (simp add: last_component_def)
qed

lemma length_takeWhile_less:
  assumes "x \<in> set xs" "\<not> P x"
  shows "length (takeWhile P xs) < length xs"
proof -
  from assms have "dropWhile P xs \<noteq> []"
    by (auto simp: dropWhile_eq_Nil_conv)
  then have "0 < length (dropWhile P xs)"
    by simp
  moreover have "length xs = length (takeWhile P xs) + length (dropWhile P xs)"
    by (metis length_append takeWhile_dropWhile_id)
  ultimately show ?thesis by linarith
qed

lemma basename_strips_lower_case_extension:
  assumes "extname p \<noteq> []" and "toLowerCase (extname p) = extname p"
  shows "basename p (toLowerCase (extname p)) @ extname p = last_component p
    \<and> length (basename p (toLowerCase (extname p))) < length (last_component p)"
proof -
  define comp where "comp = last_component p"
  define tail where "tail = rev (takeWhile (\<lambda>c. c \<noteq> 0x2E) (rev comp))"
  define e where "e = extname p"
  have ext: "extname p = (if 0x2E \<notin> set comp \<or> length tail + 1 = length comp \<or> comp = js ''..''
      then [] else drop (length comp - (length tail + 1)) comp)"
    by (simp only: extname_def Let_def comp_def tail_def)
  have c: "\<not> (0x2E \<notin> set comp \<or> length tail + 1 = length comp \<or> comp = js ''..'')"
  proof
    assume "0x2E \<notin> set comp \<or> length tail + 1 = length comp \<or> comp = js ''..''"
    then have "extname p = []"
      by (simp only: ext if_True)
    with assms(1) show False by contradiction
  qed
  then have e: "e = drop (length comp - (length tail + 1)) comp"
    by (simp only: e_def ext if_False)
  from c have dot: "0x2E \<in> set (rev comp)" and nf: "length tail + 1 \<noteq> length comp"
    by simp_all
  have "length (takeWhile (\<lambda>c. c \<noteq> 0x2E) (rev comp)) < length (rev comp)"
    by (rule length_takeWhile_less [OF dot]) simp
  then have "length tail < length comp"
    by (simp add: tail_def)
  with nf have lt: "length tail + 1 < length comp"
    by linarith
  then have len_e: "length e = length tail + 1"
    by (simp add: e)
  have le: "length comp \<le> length p"
    unfolding comp_def by (rule length_last_component)
  from len_e lt have e_ne: "e \<noteq> []" and e_lt: "length e < length comp"
    by auto
  from e_lt le have e_le: "length e \<le> length p" and e_p: "e \<noteq> p"
    by auto
  have suf: "drop (length comp - length e) comp = e"
    by (simp add: len_e e)
  have b: "basename p e = take (length comp - length e) comp"
    unfolding basename_def Let_def comp_def [symmetric]
    using e_ne e_le e_p e_lt suf by (simp only: simp_thms if_True if_False)
  from assms(2) have low: "toLowerCase e = e"
    by (simp only: e_def)
  have "take (length comp - length e) comp @ e = comp"
    by (metis append_take_drop_id suf)
  moreover have "length (take (length comp - length e) comp) < length comp"
    using lt by (simp add: len_e)
  ultimately show ?thesis
    by (simp only: low b comp_def [symmetric] e_def [symmetric] simp_thms)
qed

lemma vgafix_paths:
  "extname (js ''/fonts/VGAFIX.FON'') = js ''.FON''"
  "toLowerCase (js ''.FON'') = js ''.fon''"
  "basename (js ''/fonts/VGAFIX.FON'') (js ''.fon'') = js ''VGAFIX.FON''"
  "substring (js ''.fon'') (Suc 0) = js ''fon''"
  by (simp_all add: extname_def basename_def last_component_def toLowerCase_def lower_unit_def
      substring_def js_def)

text \<open>
  C5. The fallback is meant to be the file name without its extension. \<open>path.basename\<close>
  compares the suffix case-sensitively, and the extension it is given has been lower-cased:
  for the readable file \<open>/fonts/VGAFIX.FON\<close>, which the directory walk accepts because it
  lower-cases the extension too, the entry has \<open>name = family = VGAFIX.FON\<close>, the extension
  still on it, not \<open>VGAFIX\<close>.
\<close>

theorem fallback_name_keeps_upper_case_extension:
  "readFontMetadataSync upper_fs (js ''/fonts/VGAFIX.FON'') =
     Some (empty_entry\<lparr>name := Some (js ''VGAFIX.FON''), path := Some (js ''/fonts/VGAFIX.FON''),
       format := Some (js ''fon''), family := Some (js ''VGAFIX.FON''), fileSize := Some 0,
       lastModified := Some 7\<rparr>)
   \<and> js ''VGAFIX.FON'' \<noteq> js ''VGAFIX''"
proof -
  have no: "js ''.fon'' \<noteq> js ''.ttf''" "js ''.fon'' \<noteq> js ''.otf''" "js ''.fon'' \<noteq> js ''.ttc''"
    "js ''VGAFIX.FON'' \<noteq> js ''VGAFIX''"
    by (simp_all add: js_def)
  have "readFontMetadataSync upper_fs (js ''/fonts/VGAFIX.FON'')
      = Some (synthesize (js ''/fonts/VGAFIX.FON'') \<lparr> st_size = 0, st_mtime = 7 \<rparr> [])"
    by (simp add: readFontMetadataSync_def upper_fs_def)
  then show ?thesis
    by (simp add: synthesize_def vgafix_paths no Let_def empty_entry_def)
qed

subsection \<open>C4: isMonospace in the decoded metadata and in the entry of a file\<close>

lemma isMonospace_parseTTFOTFFont:
  assumes "parseTTFOTFFont buf = Some m"
  shows "isMonospace m =
      (if \<exists>i \<in> set (visited_tables buf). monospace_signal buf i then Some True else None)"
proof -
  from assms have "m = foldl assign empty_entry (map (table_data buf) (visited_tables buf))"
    by (simp add: parseTTFOTFFont_fold split: if_splits)
  then show ?thesis
    by (simp add: isMonospace_foldl_assign foldl_ovr comp_def isMonospace_table_data
        last_some_signal)
qed

lemma name_parseTTFOTFFont:
  assumes "parseTTFOTFFont buf = Some m"
  shows "name m = last_some (map (\<lambda>i. name (table_data buf i)) (visited_tables buf))"
proof -
  from assms have "m = foldl assign empty_entry (map (table_data buf) (visited_tables buf))"
    by (simp add: parseTTFOTFFont_fold split: if_splits)
  then show ?thesis
    by (simp add: name_foldl_assign foldl_ovr comp_def)
qed

lemma isMonospace_synthesize:
  "isMonospace (synthesize fontPath st buf) =
     (if toLowerCase (extname fontPath) \<in> set [js ''.ttf'', js ''.otf'', js ''.ttc'']
         \<and> (\<exists>m. parseTTFOTFFont buf = Some m \<and> truthy (name m))
         \<and> (\<exists>i \<in> set (visited_tables buf). monospace_signal buf i)
      then Some True else None)"
proof (cases "parseTTFOTFFont buf")
  case None
  then show ?thesis by (simp add: synthesize_def Let_def)
next
  case (Some m)
  note mono = isMonospace_parseTTFOTFFont [OF Some]
  show ?thesis
  proof (cases "toLowerCase (extname fontPath) \<in> set [js ''.ttf'', js ''.otf'', js ''.ttc'']
      \<and> truthy (name m)")
    case True
    then have "isMonospace (synthesize fontPath st buf) = isMonospace m"
      using Some by (simp add: synthesize_def Let_def assign_def)
    with True Some mono show ?thesis by simp
  next
    case False
    then have "isMonospace (synthesize fontPath st buf) = None"
      using Some by (auto simp: synthesize_def Let_def)
    with False Some show ?thesis by auto
  qed
qed

lemma name_table_data_post:
  "table_tag buf i = js ''post'' \<Longrightarrow> name (table_data buf i) = None"
  by (simp add: table_data_def tags_distinct parsePostTable_def readUInt32BE_def)

lemma mono_ttf_paths:
  "extname (js ''/f/mono.ttf'') = js ''.ttf''"
  "basename (js ''/f/mono.ttf'') (js ''.ttf'') = js ''mono''"
  "extname (js ''/f/named.ttf'') = js ''.ttf''"
  by (simp_all add: extname_def basename_def last_component_def js_def)

lemma mono_fs_reads:
  "readFontMetadataSync mono_fs (js ''/f/mono.ttf'')
     = Some (synthesize (js ''/f/mono.ttf'') \<lparr> st_size = 60, st_mtime = 7 \<rparr> fixed_pitch)"
  "readFontMetadataSync mono_fs (js ''/f/named.ttf'')
     = Some (synthesize (js ''/f/named.ttf'') \<lparr> st_size = 102, st_mtime = 7 \<rparr> named_mono)"
proof -
  have ne: "js ''/f/named.ttf'' \<noteq> js ''/f/mono.ttf''"
    by (simp add: js_def)
  show "readFontMetadataSync mono_fs (js ''/f/mono.ttf'')
     = Some (synthesize (js ''/f/mono.ttf'') \<lparr> st_size = 60, st_mtime = 7 \<rparr> fixed_pitch)"
    by (simp add: readFontMetadataSync_def mono_fs_def)
  show "readFontMetadataSync mono_fs (js ''/f/named.ttf'')
     = Some (synthesize (js ''/f/named.ttf'') \<lparr> st_size = 102, st_mtime = 7 \<rparr> named_mono)"
    by (simp add: readFontMetadataSync_def mono_fs_def ne)
qed

lemma fixed_pitch_parse:
  "map_option isMonospace (parseTTFOTFFont fixed_pitch) = Some (Some True)"
  "map_option name (parseTTFOTFFont fixed_pitch) = Some None"
proof -
  obtain m where m: "parseTTFOTFFont fixed_pitch = Some m"
    by (simp add: parseTTFOTFFont_fold fixed_pitch_facts)
  have "monospace_signal fixed_pitch 0"
    by (simp add: fixed_pitch_facts monospace_signal_def)
  with isMonospace_parseTTFOTFFont [OF m] m
  show "map_option isMonospace (parseTTFOTFFont fixed_pitch) = Some (Some True)"
    by (simp add: fixed_pitch_facts)
  from name_parseTTFOTFFont [OF m] m
  show "map_option name (parseTTFOTFFont fixed_pitch) = Some None"
    by (simp add: fixed_pitch_facts name_table_data_post)
qed

text \<open>
  C4 as the specification words it has the \<open>isMonospace\<close> of a font file true whenever the
  post table's \<open>isFixedPitch\<close> is not zero. The file \<open>/f/mono.ttf\<close> holds a post table with
  \<open>isFixedPitch = 1\<close> that the decoder reads, and the decoded metadata has
  \<open>isMonospace\<close> true; the tables give no name, so the entry of the file is the filename
  fallback, with the name \<open>mono\<close> and without \<open>isMonospace\<close>.
\<close>

theorem isMonospace_lost_on_fallback_counterexample:
  "table_tag fixed_pitch 0 = js ''post''
   \<and> table_offset fixed_pitch 0 + 32 \<le> length fixed_pitch
   \<and> post_isFixedPitch fixed_pitch (table_offset fixed_pitch 0) = 1
   \<and> map_option isMonospace (parseTTFOTFFont fixed_pitch) = Some (Some True)
   \<and> map_option name (parseTTFOTFFont fixed_pitch) = Some None
   \<and> map_option isMonospace (readFontMetadataSync mono_fs (js ''/f/mono.ttf'')) = Some None
   \<and> map_option name (readFontMetadataSync mono_fs (js ''/f/mono.ttf''))
       = Some (Some (js ''mono''))"
proof -
  from fixed_pitch_parse(2) have noname:
    "\<forall>m. parseTTFOTFFont fixed_pitch = Some m \<longrightarrow> \<not> truthy (name m)"
    by (auto simp: truthy_def)
  then have "\<not> (\<exists>m. parseTTFOTFFont fixed_pitch = Some m \<and> truthy (name m))"
    by blast
  then have "isMonospace (synthesize (js ''/f/mono.ttf'') \<lparr> st_size = 60, st_mtime = 7 \<rparr>
      fixed_pitch) = None"
    by (simp only: isMonospace_synthesize simp_thms if_False)
  moreover have "name (synthesize (js ''/f/mono.ttf'') \<lparr> st_size = 60, st_mtime = 7 \<rparr>
      fixed_pitch) = Some (js ''mono'')"
    using noname by (simp add: synthesize_fallback mono_ttf_paths custom_bold_paths)
  ultimately show ?thesis
    by (simp add: mono_fs_reads fixed_pitch_parse fixed_pitch_facts)
qed

text \<open>
  C4, as the code has it. The OS/2 decoder sets \<open>isMonospace\<close> to true exactly when the table
  reaches \<open>offset + 42\<close> inside the buffer and its PANOSE proportion byte is 9, the post
  decoder exactly when the table reaches \<open>offset + 32\<close> inside the buffer and its
  \<open>isFixedPitch\<close> is not zero, and the name decoder never sets it; otherwise the field is
  absent. In the metadata decoded from a file, \<open>isMonospace\<close> is true if and only if one of
  the visited directory entries gives such a signal, and absent otherwise. In the entry of a
  file that can be read, \<open>isMonospace\<close> is true if and only if the extension is \<open>.ttf\<close>,
  \<open>.otf\<close> or \<open>.ttc\<close>, the decoded metadata has a non-empty name, and one of the visited
  directory entries gives a signal; in every other case, the filename fallback included, the
  field is absent. Neither a decoder nor an entry has it false.
\<close>

theorem isMonospace_true_or_absent:
  "isMonospace (parseOS2Table buf offset len) =
     (if offset + 42 \<le> length buf \<and> panose_proportion buf offset = 9 then Some True else None)
   \<and> isMonospace (parsePostTable buf offset len) =
     (if offset + 32 \<le> length buf \<and> post_isFixedPitch buf offset \<noteq> 0 then Some True else None)
   \<and> isMonospace (parseNameTable buf offset len) = None
   \<and> (\<forall>m. parseTTFOTFFont buf = Some m \<longrightarrow>
         isMonospace m =
           (if \<exists>i \<in> set (visited_tables buf). monospace_signal buf i then Some True else None))
   \<and> (\<forall>get entry. (get = readFontMetadataSync \<or> get = readFontMetadataAsync)
         \<and> readFileSync fs fontPath = Inr buf \<and> get fs fontPath = Some entry \<longrightarrow>
         isMonospace entry =
           (if toLowerCase (extname fontPath) \<in> set [js ''.ttf'', js ''.otf'', js ''.ttc'']
               \<and> (\<exists>m. parseTTFOTFFont buf = Some m \<and> truthy (name m))
               \<and> (\<exists>i \<in> set (visited_tables buf). monospace_signal buf i)
            then Some True else None))"
proof -
  have entry: "isMonospace entry =
      (if toLowerCase (extname fontPath) \<in> set [js ''.ttf'', js ''.otf'', js ''.ttc'']
          \<and> (\<exists>m. parseTTFOTFFont buf = Some m \<and> truthy (name m))
          \<and> (\<exists>i \<in> set (visited_tables buf). monospace_signal buf i)
       then Some True else None)"
    if "get = readFontMetadataSync \<or> get = readFontMetadataAsync"
      "readFileSync fs fontPath = Inr buf" "get fs fontPath = Some entry" for get entry
  proof -
    from that(1,3) have "readFontMetadataSync fs fontPath = Some entry"
      by (auto simp: readFontMetadataAsync_eq)
    with that(2) obtain st where "entry = synthesize fontPath st buf"
      by (auto simp: readFontMetadataSync_def split: sum.splits)
    then show ?thesis
      by (simp only: isMonospace_synthesize)
  qed
  have "\<forall>m. parseTTFOTFFont buf = Some m \<longrightarrow>
         isMonospace m =
           (if \<exists>i \<in> set (visited_tables buf). monospace_signal buf i then Some True else None)"
    using isMonospace_parseTTFOTFFont by blast
  with entry show ?thesis
    by (simp only: isMonospace_parseOS2Table isMonospace_parsePostTable
        isMonospace_parseNameTable simp_thms) blast
qed

lemma text_mono: "trim (replace_nul (decodeUtf16BE [0,0x4D, 0,0x6F, 0,0x6E, 0,0x6F]))
    = js ''Mono''"
  by (simp add: trim_def replace_nul_def is_white_def js_def)

lemma named_mono_facts:
  "12 \<le> length named_mono" "length named_mono = 102"
  "visited_tables named_mono = [0, Suc 0]"
  "table_tag named_mono 0 = js ''name''" "table_tag named_mono (Suc 0) = js ''post''"
  "table_offset named_mono 0 = 44" "table_offset named_mono (Suc 0) = 70"
  "post_isFixedPitch named_mono 70 = 1"
  by (simp_all add: named_mono_def visited_tables_def entries_fit_def u16be_def
      table_tag_def table_offset_def toString_ascii_def slice_def js_def u32be_def
      post_isFixedPitch_def upt_rec)

lemma named_mono_name: "name (table_data named_mono 0) = Some (js ''Mono'')"
proof -
  have v: "visited_records named_mono 44 = [0]"
    by (simp add: visited_records_def records_fit_def u16be_def named_mono_def upt_rec)
  have so: "string_offset named_mono 44 = 62"
    by (simp add: string_offset_def u16be_def named_mono_def)
  have t: "record_text named_mono 44 62 0 = js ''Mono''"
    unfolding text_mono [symmetric]
    by (simp add: record_text_def record_start_def record_length_def u16be_def slice_def
        named_mono_def)
  have ne: "js ''Mono'' \<noteq> []"
    by (simp add: js_def)
  have w: "record_writes named_mono 44 62 4 0 = Some (js ''Mono'')"
    unfolding record_writes_def t
    by (simp add: ne record_nameID_def record_in_range_def record_start_def record_length_def
        u16be_def named_mono_def)
  show ?thesis
    by (simp add: table_data_def named_mono_facts name_parseNameTable v so w)
qed

theorem isMonospace_true_or_absent_witness:
  "readFileSync mono_fs (js ''/f/named.ttf'') = Inr named_mono
   \<and> toLowerCase (extname (js ''/f/named.ttf'')) = js ''.ttf''
   \<and> map_option name (parseTTFOTFFont named_mono) = Some (Some (js ''Mono''))
   \<and> visited_tables named_mono = [0, 1] \<and> monospace_signal named_mono 1
   \<and> map_option isMonospace (parseTTFOTFFont named_mono) = Some (Some True)
   \<and> map_option isMonospace (readFontMetadataSync mono_fs (js ''/f/named.ttf''))
       = Some (Some True)"
proof -
  have rd: "readFileSync mono_fs (js ''/f/named.ttf'') = Inr named_mono"
    by (simp add: mono_fs_def) (simp add: js_def)
  have ext: "toLowerCase (extname (js ''/f/named.ttf'')) = js ''.ttf''"
    by (simp add: mono_ttf_paths custom_bold_paths)
  obtain m where m: "parseTTFOTFFont named_mono = Some m"
    by (simp add: parseTTFOTFFont_fold named_mono_facts)
  from name_parseTTFOTFFont [OF m] have nm: "name m = Some (js ''Mono'')"
    by (simp add: named_mono_facts named_mono_name name_table_data_post)
  have ne: "js ''Mono'' \<noteq> []"
    by (simp add: js_def)
  from m nm ne have named: "\<exists>m. parseTTFOTFFont named_mono = Some m \<and> truthy (name m)"
    by (auto simp: truthy_def)
  have sig: "monospace_signal named_mono (Suc 0)"
    by (simp add: monospace_signal_def named_mono_facts)
  then have some: "\<exists>i \<in> set (visited_tables named_mono). monospace_signal named_mono i"
    by (simp add: named_mono_facts)
  note t = isMonospace_true_or_absent [of named_mono _ _ mono_fs "js ''/f/named.ttf''"]
  from t [THEN conjunct2, THEN conjunct2, THEN conjunct2, THEN conjunct1, rule_format, OF m]
    some
  have dec: "isMonospace m = Some True"
    by (simp only: if_True)
  from t [THEN conjunct2, THEN conjunct2, THEN conjunct2, THEN conjunct2, rule_format,
      of readFontMetadataSync
        "synthesize (js ''/f/named.ttf'') \<lparr> st_size = 102, st_mtime = 7 \<rparr> named_mono"]
    rd mono_fs_reads(2) ext named some
  have ent: "isMonospace (synthesize (js ''/f/named.ttf'') \<lparr> st_size = 102, st_mtime = 7 \<rparr>
      named_mono) = Some True"
    by simp
  from rd ext m nm sig dec ent show ?thesis
    by (simp add: named_mono_facts mono_fs_reads)
qed

end
